theory Spec2Isabelle
  imports Main "HOL-Library.Finite_Map" "HOL-Library.Char_ord" "HOL-Library.List_Lexorder"
begin

section \<open>Taxonomy: kinds, codes and the two lookup tables\<close>

text \<open>
  \<^verbatim>\<open>type Kind string\<close> and \<^verbatim>\<open>type Code string\<close>: both are open string types, so a
  value outside the named constants is well-typed and the tables need their default
  branch.
\<close>

type_synonym Kind = string

type_synonym Code = string

definition KindValidation :: Kind where "KindValidation = ''validation''"

definition KindNetwork :: Kind where "KindNetwork = ''network''"

definition KindTimeout :: Kind where "KindTimeout = ''timeout''"

definition KindNotFound :: Kind where "KindNotFound = ''not_found''"

definition KindConflict :: Kind where "KindConflict = ''conflict''"

definition KindForbidden :: Kind where "KindForbidden = ''forbidden''"

definition KindInternal :: Kind where "KindInternal = ''internal''"

definition KindRateLimit :: Kind where "KindRateLimit = ''rate_limit''"

definition KindAuth :: Kind where "KindAuth = ''auth''"

definition KindUnauthorized :: Kind where "KindUnauthorized = ''unauthorized''"

definition KindOther :: Kind where "KindOther = ''other''"

lemmas Kind_defs =
  KindValidation_def KindNetwork_def KindTimeout_def KindNotFound_def KindConflict_def
  KindForbidden_def KindInternal_def KindRateLimit_def KindAuth_def KindUnauthorized_def
  KindOther_def

definition CodeInvalidInput :: Code where "CodeInvalidInput = ''INVALID_INPUT''"

definition CodeNotFound :: Code where "CodeNotFound = ''NOT_FOUND''"

definition CodeConflict :: Code where "CodeConflict = ''CONFLICT''"

definition CodeTimeout :: Code where "CodeTimeout = ''TIMEOUT''"

definition CodeRateLimited :: Code where "CodeRateLimited = ''RATE_LIMITED''"

definition CodePermissionDenied :: Code where "CodePermissionDenied = ''PERMISSION_DENIED''"

definition CodeValidation :: Code where "CodeValidation = ''VALIDATION''"

definition CodeVideoDecodeFail :: Code where "CodeVideoDecodeFail = ''VIDEO_DECODE_FAIL''"

definition CodeNetwork :: Code where "CodeNetwork = ''NETWORK''"

definition CodeInternal :: Code where "CodeInternal = ''INTERNAL''"

definition CodeUnauthorized :: Code where "CodeUnauthorized = ''UNAUTHORIZED''"

lemmas Code_defs =
  CodeInvalidInput_def CodeNotFound_def CodeConflict_def CodeTimeout_def CodeRateLimited_def
  CodePermissionDenied_def CodeValidation_def CodeVideoDecodeFail_def CodeNetwork_def
  CodeInternal_def CodeUnauthorized_def

text \<open>\<^verbatim>\<open>kindToHTTPStatus\<close>: the switch, case by case, in the order of the source.\<close>

definition kindToHTTPStatus :: "Kind \<Rightarrow> int" where
  "kindToHTTPStatus k =
     (if k = KindValidation then 400
      else if k = KindAuth \<or> k = KindForbidden then 403
      else if k = KindUnauthorized then 401
      else if k = KindNotFound then 404
      else if k = KindConflict then 409
      else if k = KindTimeout then 408
      else if k = KindRateLimit then 429
      else if k = KindNetwork \<or> k = KindInternal \<or> k = KindOther then 500
      else 500)"

text \<open>\<^verbatim>\<open>codeToKind\<close>: the default kind of a code.\<close>

definition codeToKind :: "Code \<Rightarrow> Kind" where
  "codeToKind c =
     (if c = CodeInvalidInput \<or> c = CodeValidation then KindValidation
      else if c = CodeNotFound then KindNotFound
      else if c = CodeConflict then KindConflict
      else if c = CodeTimeout then KindTimeout
      else if c = CodeRateLimited then KindRateLimit
      else if c = CodePermissionDenied \<or> c = CodeUnauthorized then KindAuth
      else if c = CodeNetwork then KindNetwork
      else if c = CodeInternal \<or> c = CodeVideoDecodeFail then KindInternal
      else KindOther)"

section \<open>Data model\<close>

subsection \<open>Instants\<close>

text \<open>
  A \<^verbatim>\<open>time.Time\<close> is modelled by its calendar reading in its own zone: the civil
  fields the standard library's \<^verbatim>\<open>Date\<close>, \<^verbatim>\<open>Clock\<close> and \<^verbatim>\<open>Zone\<close> return, the
  nanosecond within the second, and the zone's offset east of UTC in seconds. The
  monotonic clock reading and the zone's name are left out.
\<close>

record Time =
  year :: int
  month :: nat
  day :: nat
  hour :: nat
  minute :: nat
  sec :: nat
  nsec :: nat
  zoneOffset :: int

text \<open>The zero value \<^verbatim>\<open>time.Time{}\<close>: January 1, year 1, 00:00:00 UTC.\<close>

definition zeroTime :: Time where
  "zeroTime = \<lparr>year = 1, month = 1, day = 1, hour = 0, minute = 0, sec = 0, nsec = 0,
     zoneOffset = 0\<rparr>"

subsection \<open>Dynamic values\<close>

text \<open>
  \<^verbatim>\<open>map[string]any\<close> is a finite map. A value of type \<^verbatim>\<open>any\<close> is modelled by how
  \<^verbatim>\<open>encoding/json\<close> treats it: nil, a boolean, an integer of any width, a finite
  float, a string (a byte sequence, valid UTF-8 or not), a slice, a map with string
  keys, or a value that has no JSON encoding (a channel, a function, NaN, an
  infinity). A finite float is named by the number literal the encoder writes for
  it; its arithmetic is not modelled.
\<close>

datatype any =
    Null
  | Bool bool
  | IntV int
  | Float64 string
  | Str string
  | Slice "any list"
  | MapV "(string, any) fmap"
  | Unencodable

subsection \<open>Errors\<close>

text \<open>
  The Go interface \<^verbatim>\<open>error\<close> is a nilable reference to a value of some dynamic type.
  The dynamic types the model covers are the package's own (\<^verbatim>\<open>*AppError\<close>,
  \<^verbatim>\<open>*wrapError\<close> and the four variants that embed \<^verbatim>\<open>AppError\<close>), the standard
  library's joined error, and foreign errors: an opaque error with its text, with or
  without an \<^verbatim>\<open>Unwrap() error\<close> method. \<^verbatim>\<open>nil\<close> is \<open>None\<close>.

  Errors are values here: two errors are the same error when they are equal, where Go
  compares the pointers. A chain is a finite tree by construction; the traversal of a
  possibly cyclic chain is modelled separately, over an arbitrary successor function.
\<close>

datatype AppError = MkAppError
    (Code: Code) (Kind: Kind) (InternalMsg: string) (UserMsg: string)
    (Cause: "err option") (stackTrace: string)
    (TraceID: string) (RequestID: string) (Timestamp: Time)
    (Retryable: bool) (Timeout: bool)
    (Metadata: "(string, any) fmap")
and err =
    EApp AppError
  | EWrap string "err option"
  | ELimit AppError int Time
  | ERBAC AppError string string string
  | EField AppError string string
  | ETimeout AppError Time
  | EJoin "err list"
  | EForeign string
  | EForeignWrap string "err option"

type_synonym error = "err option"

text \<open>
  Field assignment \<^verbatim>\<open>e.F = v\<close>, one function per field that the package assigns.
\<close>

definition set_Code :: "Code \<Rightarrow> AppError \<Rightarrow> AppError" where
  "set_Code v e = MkAppError v (Kind e) (InternalMsg e) (UserMsg e) (Cause e) (stackTrace e)
     (TraceID e) (RequestID e) (Timestamp e) (Retryable e) (Timeout e) (Metadata e)"

definition set_Kind :: "Kind \<Rightarrow> AppError \<Rightarrow> AppError" where
  "set_Kind v e = MkAppError (Code e) v (InternalMsg e) (UserMsg e) (Cause e) (stackTrace e)
     (TraceID e) (RequestID e) (Timestamp e) (Retryable e) (Timeout e) (Metadata e)"

definition set_InternalMsg :: "string \<Rightarrow> AppError \<Rightarrow> AppError" where
  "set_InternalMsg v e = MkAppError (Code e) (Kind e) v (UserMsg e) (Cause e) (stackTrace e)
     (TraceID e) (RequestID e) (Timestamp e) (Retryable e) (Timeout e) (Metadata e)"

definition set_UserMsg :: "string \<Rightarrow> AppError \<Rightarrow> AppError" where
  "set_UserMsg v e = MkAppError (Code e) (Kind e) (InternalMsg e) v (Cause e) (stackTrace e)
     (TraceID e) (RequestID e) (Timestamp e) (Retryable e) (Timeout e) (Metadata e)"

definition set_Cause :: "error \<Rightarrow> AppError \<Rightarrow> AppError" where
  "set_Cause v e = MkAppError (Code e) (Kind e) (InternalMsg e) (UserMsg e) v (stackTrace e)
     (TraceID e) (RequestID e) (Timestamp e) (Retryable e) (Timeout e) (Metadata e)"

definition set_stackTrace :: "string \<Rightarrow> AppError \<Rightarrow> AppError" where
  "set_stackTrace v e = MkAppError (Code e) (Kind e) (InternalMsg e) (UserMsg e) (Cause e) v
     (TraceID e) (RequestID e) (Timestamp e) (Retryable e) (Timeout e) (Metadata e)"

definition set_TraceID :: "string \<Rightarrow> AppError \<Rightarrow> AppError" where
  "set_TraceID v e = MkAppError (Code e) (Kind e) (InternalMsg e) (UserMsg e) (Cause e)
     (stackTrace e) v (RequestID e) (Timestamp e) (Retryable e) (Timeout e) (Metadata e)"

definition set_RequestID :: "string \<Rightarrow> AppError \<Rightarrow> AppError" where
  "set_RequestID v e = MkAppError (Code e) (Kind e) (InternalMsg e) (UserMsg e) (Cause e)
     (stackTrace e) (TraceID e) v (Timestamp e) (Retryable e) (Timeout e) (Metadata e)"

definition set_Timestamp :: "Time \<Rightarrow> AppError \<Rightarrow> AppError" where
  "set_Timestamp v e = MkAppError (Code e) (Kind e) (InternalMsg e) (UserMsg e) (Cause e)
     (stackTrace e) (TraceID e) (RequestID e) v (Retryable e) (Timeout e) (Metadata e)"

definition set_Retryable :: "bool \<Rightarrow> AppError \<Rightarrow> AppError" where
  "set_Retryable v e = MkAppError (Code e) (Kind e) (InternalMsg e) (UserMsg e) (Cause e)
     (stackTrace e) (TraceID e) (RequestID e) (Timestamp e) v (Timeout e) (Metadata e)"

definition set_Timeout :: "bool \<Rightarrow> AppError \<Rightarrow> AppError" where
  "set_Timeout v e = MkAppError (Code e) (Kind e) (InternalMsg e) (UserMsg e) (Cause e)
     (stackTrace e) (TraceID e) (RequestID e) (Timestamp e) (Retryable e) v (Metadata e)"

definition set_Metadata :: "(string, any) fmap \<Rightarrow> AppError \<Rightarrow> AppError" where
  "set_Metadata v e = MkAppError (Code e) (Kind e) (InternalMsg e) (UserMsg e) (Cause e)
     (stackTrace e) (TraceID e) (RequestID e) (Timestamp e) (Retryable e) (Timeout e) v"

lemmas set_defs =
  set_Code_def set_Kind_def set_InternalMsg_def set_UserMsg_def set_Cause_def
  set_stackTrace_def set_TraceID_def set_RequestID_def set_Timestamp_def set_Retryable_def
  set_Timeout_def set_Metadata_def


subsection \<open>Methods of \<^verbatim>\<open>*AppError\<close>\<close>

definition AppError_Error :: "AppError \<Rightarrow> string" where
  "AppError_Error e =
     (if InternalMsg e \<noteq> [] then InternalMsg e
      else if UserMsg e \<noteq> [] then UserMsg e
      else Code e)"

definition HTTPStatus :: "AppError \<Rightarrow> int" where
  "HTTPStatus e = kindToHTTPStatus (Kind e)"

definition IsRetryable :: "AppError \<Rightarrow> bool" where
  "IsRetryable e = Retryable e"

definition IsTimeout :: "AppError \<Rightarrow> bool" where
  "IsTimeout e = (Timeout e \<or> Kind e = KindTimeout)"

section \<open>Construction\<close>

text \<open>
  \<^verbatim>\<open>type Option func(*AppError)\<close>: an option is any function that updates the error
  under construction. The package's own options follow.
\<close>

type_synonym Option = "AppError \<Rightarrow> AppError"

definition WithCause :: "error \<Rightarrow> Option" where
  "WithCause cause = (\<lambda>e. set_Cause cause e)"

definition WithKind :: "Kind \<Rightarrow> Option" where
  "WithKind k = (\<lambda>e. set_Kind k e)"

definition WithTraceID :: "string \<Rightarrow> Option" where
  "WithTraceID tid = (\<lambda>e. set_TraceID tid e)"

definition WithRequestID :: "string \<Rightarrow> Option" where
  "WithRequestID rid = (\<lambda>e. set_RequestID rid e)"

definition WithRetryable :: "bool \<Rightarrow> Option" where
  "WithRetryable retryable = (\<lambda>e. set_Retryable retryable e)"

definition WithTimeout :: "bool \<Rightarrow> Option" where
  "WithTimeout isTimeout = (\<lambda>e. set_Timeout isTimeout e)"

text \<open>
  \<^verbatim>\<open>for k, v := range m { e.Metadata[k] = v }\<close>: the loop visits every entry of \<open>m\<close>
  once, in an order Go leaves open; the model visits them in key order.
\<close>

definition WithMetadata :: "(string, any) fmap \<Rightarrow> Option" where
  "WithMetadata m =
     (\<lambda>e. set_Metadata (fold (\<lambda>(k, v) md. fmupd k v md) (sorted_list_of_fmap m) (Metadata e)) e)"

lemmas With_defs =
  WithCause_def WithKind_def WithTraceID_def WithRequestID_def WithRetryable_def
  WithTimeout_def WithMetadata_def

text \<open>
  \<^verbatim>\<open>New\<close>. The clock reading \<^verbatim>\<open>time.Now()\<close> and the trace \<^verbatim>\<open>debug.Stack()\<close> are
  inputs of the model. The options run in the order given, each on the result of the
  one before.
\<close>

definition New :: "Time \<Rightarrow> string \<Rightarrow> Code \<Rightarrow> string \<Rightarrow> string \<Rightarrow> Option list \<Rightarrow> AppError" where
  "New now stack code internalMsg userMsg opts =
     (let e0 = MkAppError code (codeToKind code) internalMsg userMsg None [] [] [] now
                 False False fmempty;
          e1 = (if userMsg = [] then set_UserMsg internalMsg e0 else e0);
          e2 = set_stackTrace stack e1
      in fold (\<lambda>opt e. opt e) opts e2)"

definition NewSentinel :: "Code \<Rightarrow> string \<Rightarrow> Kind \<Rightarrow> AppError" where
  "NewSentinel code msg kind =
     MkAppError code kind msg msg None [] [] [] zeroTime False False fmempty"

definition ErrInvalidInput :: AppError where
  "ErrInvalidInput = NewSentinel CodeInvalidInput ''invalid input'' KindValidation"

definition ErrNotFound :: AppError where
  "ErrNotFound = NewSentinel CodeNotFound ''resource not found'' KindNotFound"

definition ErrConflict :: AppError where
  "ErrConflict = NewSentinel CodeConflict ''resource conflict'' KindConflict"

definition ErrTimeout :: AppError where
  "ErrTimeout = NewSentinel CodeTimeout ''operation timed out'' KindTimeout"

definition ErrRateLimited :: AppError where
  "ErrRateLimited = NewSentinel CodeRateLimited ''rate limit exceeded'' KindRateLimit"

definition ErrForbidden :: AppError where
  "ErrForbidden = NewSentinel CodePermissionDenied ''permission denied'' KindForbidden"

definition ErrUnauthorized :: AppError where
  "ErrUnauthorized = NewSentinel CodeUnauthorized ''unauthorized'' KindUnauthorized"

definition ErrInternal :: AppError where
  "ErrInternal = NewSentinel CodeInternal ''internal error'' KindInternal"

definition ErrNetwork :: AppError where
  "ErrNetwork = NewSentinel CodeNetwork ''network error'' KindNetwork"

text \<open>
  \<^verbatim>\<open>TimeoutError\<close> embeds \<^verbatim>\<open>AppError\<close>; its methods are the promoted ones.
  \<^verbatim>\<open>append(opts, WithTimeout(true), WithRetryable(true))\<close> puts the two forced options
  after the caller's.
\<close>

record TimeoutError =
  te_AppError :: AppError
  Deadline :: Time

definition NewTimeoutError :: "Time \<Rightarrow> string \<Rightarrow> Time \<Rightarrow> Option list \<Rightarrow> TimeoutError" where
  "NewTimeoutError now stack deadline opts =
     (let e = New now stack CodeTimeout ''operation timed out'' ''request timed out''
                (opts @ [WithTimeout True, WithRetryable True]);
          e' = set_Kind KindTimeout e
      in \<lparr>te_AppError = e', Deadline = deadline\<rparr>)"

definition TimeoutError_IsTimeout :: "TimeoutError \<Rightarrow> bool" where
  "TimeoutError_IsTimeout te = IsTimeout (te_AppError te)"

definition TimeoutError_IsRetryable :: "TimeoutError \<Rightarrow> bool" where
  "TimeoutError_IsRetryable te = IsRetryable (te_AppError te)"

text \<open>A \<^verbatim>\<open>*TimeoutError\<close> used as an \<^verbatim>\<open>error\<close>.\<close>

definition TimeoutError_error :: "TimeoutError \<Rightarrow> err" where
  "TimeoutError_error te = ETimeout (te_AppError te) (Deadline te)"

text \<open>The hypotheses on caller-supplied options that some statements need.\<close>

definition keeps_Kind :: "Option \<Rightarrow> bool" where
  "keeps_Kind opt = (\<forall>e. Kind (opt e) = Kind e)"

definition keeps_UserMsg :: "Option \<Rightarrow> bool" where
  "keeps_UserMsg opt = (\<forall>e. UserMsg (opt e) = UserMsg e)"

section \<open>Chain algorithms\<close>

text \<open>
  The method tables. \<open>Unwrap_method e\<close> is \<open>None\<close> when the dynamic type of \<open>e\<close>
  has no \<^verbatim>\<open>Unwrap() error\<close> method (the type assertion in \<^verbatim>\<open>RootCause\<close> fails) and
  \<open>Some r\<close> when it has one that returns \<open>r\<close>. The four variants get the method of
  the embedded \<^verbatim>\<open>AppError\<close>. A joined error has \<^verbatim>\<open>Unwrap() []error\<close> instead.
\<close>

fun Unwrap_method :: "err \<Rightarrow> error option" where
  "Unwrap_method (EApp a) = Some (Cause a)"
| "Unwrap_method (EWrap msg cause) = Some cause"
| "Unwrap_method (ELimit a remaining reset) = Some (Cause a)"
| "Unwrap_method (ERBAC a role action resource) = Some (Cause a)"
| "Unwrap_method (EField a field reason) = Some (Cause a)"
| "Unwrap_method (ETimeout a deadline) = Some (Cause a)"
| "Unwrap_method (EJoin errs) = None"
| "Unwrap_method (EForeign text) = None"
| "Unwrap_method (EForeignWrap text cause) = Some cause"

fun Unwrap_list_method :: "err \<Rightarrow> err list option" where
  "Unwrap_list_method (EJoin errs) = Some errs"
| "Unwrap_list_method _ = None"

text \<open>
  Every error that unwrapping reaches is smaller than the one unwrapped; the walks
  below terminate on this measure.
\<close>

lemma size_Cause: "Cause a = Some n \<Longrightarrow> size n < size a"
  by (cases a) simp

lemma size_Unwrap_method: "Unwrap_method e = Some (Some n) \<Longrightarrow> size n < size e"
  by (cases e) (auto dest: size_Cause)

lemma size_Unwrap_list_method: "Unwrap_list_method e = Some es \<Longrightarrow> c \<in> set es \<Longrightarrow> size c < size e"
  by (cases e) (auto simp: less_Suc_eq_le size_list_estimation')

text \<open>
  \<^verbatim>\<open>Is\<close> is the standard library's \<^verbatim>\<open>errors.Is\<close>, from its documented behaviour: a
  depth-first walk of the tree of \<open>err\<close> that answers true at an error equal to the
  target, follows \<^verbatim>\<open>Unwrap() error\<close> and tries every element of \<^verbatim>\<open>Unwrap() []error\<close>.
  No type of the model has an \<^verbatim>\<open>Is\<close> method of its own, and every error of the model
  is comparable. With a nil argument the answer is whether both are nil.
\<close>

function Is_walk :: "err \<Rightarrow> err \<Rightarrow> bool" where
  "Is_walk e target =
     (if e = target then True
      else case Unwrap_method e of
             Some nxt \<Rightarrow> (case nxt of None \<Rightarrow> False | Some n \<Rightarrow> Is_walk n target)
           | None \<Rightarrow>
               (case Unwrap_list_method e of
                  Some errs \<Rightarrow> list_ex (\<lambda>c. Is_walk c target) errs
                | None \<Rightarrow> False))"
  by pat_completeness auto

termination
  by (relation "measure (\<lambda>(e, t). size e)")
     (auto dest: size_Unwrap_method size_Unwrap_list_method)

declare Is_walk.simps [simp del]

definition Is :: "error \<Rightarrow> error \<Rightarrow> bool" where
  "Is err target =
     (case err of
        None \<Rightarrow> err = target
      | Some e \<Rightarrow> (case target of None \<Rightarrow> err = target | Some t \<Rightarrow> Is_walk e t))"

text \<open>
  \<^verbatim>\<open>Unwrap\<close> is \<^verbatim>\<open>errors.Unwrap\<close>: the result of the \<^verbatim>\<open>Unwrap() error\<close> method, nil
  where there is none.
\<close>

definition Unwrap :: "error \<Rightarrow> error" where
  "Unwrap err =
     (case err of
        None \<Rightarrow> None
      | Some e \<Rightarrow> (case Unwrap_method e of None \<Rightarrow> None | Some nxt \<Rightarrow> nxt))"

text \<open>
  The text of an error, \<^verbatim>\<open>err.Error()\<close>. The wrapper prints its message, a colon and
  a space, and the text of its cause; a joined error prints its parts on separate
  lines.
\<close>

fun join_lines :: "string list \<Rightarrow> string" where
  "join_lines [] = []"
| "join_lines [s] = s"
| "join_lines (s # t # ss) = s @ [CHR 0x0A] @ join_lines (t # ss)"

fun Error_text :: "err \<Rightarrow> string" where
  "Error_text (EApp a) = AppError_Error a"
| "Error_text (EWrap msg cause) =
     (case cause of Some c \<Rightarrow> msg @ '': '' @ Error_text c | None \<Rightarrow> msg)"
| "Error_text (ELimit a remaining reset) = AppError_Error a"
| "Error_text (ERBAC a role action resource) = AppError_Error a"
| "Error_text (EField a field reason) = AppError_Error a"
| "Error_text (ETimeout a deadline) = AppError_Error a"
| "Error_text (EJoin errs) = join_lines (map (\<lambda>c. Error_text c) errs)"
| "Error_text (EForeign text) = text"
| "Error_text (EForeignWrap text cause) = text"

text \<open>
  \<^verbatim>\<open>Wrap\<close>: nil for nil, else a \<^verbatim>\<open>wrapError\<close> around \<open>err\<close>.
\<close>

definition Wrap :: "error \<Rightarrow> string \<Rightarrow> error" where
  "Wrap err msg = (case err of None \<Rightarrow> None | Some e \<Rightarrow> Some (EWrap msg (Some e)))"

text \<open>
  \<^verbatim>\<open>RootCause\<close>. The loop \<^verbatim>\<open>for { ... err = next }\<close> has no bound and no cycle
  detection, so it is a partial function: \<open>None\<close> is "does not return". It is
  written over an arbitrary answer \<open>unwrap\<close> to the type assertion and the call, so
  that cyclic chains, which Go pointers can form, are in its domain; \<open>RootCause\<close> is
  the loop over the method table of the model. The outer option of the result is
  termination, the inner one is Go's nil.
\<close>

partial_function (option) RootCause_loop :: "('e \<Rightarrow> 'e option option) \<Rightarrow> 'e \<Rightarrow> 'e option" where
  "RootCause_loop unwrap e =
     (case unwrap e of
        None \<Rightarrow> Some e
      | Some nxt \<Rightarrow> (case nxt of None \<Rightarrow> Some e | Some n \<Rightarrow> RootCause_loop unwrap n))"

definition RootCause_over :: "('e \<Rightarrow> 'e option option) \<Rightarrow> 'e option \<Rightarrow> 'e option option" where
  "RootCause_over unwrap err =
     (case err of None \<Rightarrow> Some None | Some e \<Rightarrow> map_option Some (RootCause_loop unwrap e))"

definition RootCause :: "error \<Rightarrow> error option" where
  "RootCause err = RootCause_over Unwrap_method err"

text \<open>
  \<open>chain_end unwrap e r\<close>: repeated unwrapping from \<open>e\<close> stops at \<open>r\<close>, the first
  error that has no \<^verbatim>\<open>Unwrap() error\<close> method or whose \<^verbatim>\<open>Unwrap\<close> returns nil. It
  holds for some \<open>r\<close> exactly when the chain from \<open>e\<close> is finite.
\<close>

inductive chain_end :: "('e \<Rightarrow> 'e option option) \<Rightarrow> 'e \<Rightarrow> 'e \<Rightarrow> bool" for unwrap where
  no_method: "unwrap e = None \<Longrightarrow> chain_end unwrap e e"
| nil_next: "unwrap e = Some None \<Longrightarrow> chain_end unwrap e e"
| step: "unwrap e = Some (Some n) \<Longrightarrow> chain_end unwrap n r \<Longrightarrow> chain_end unwrap e r"

text \<open>
  The non-nil errors of a list, in order: what the two filters below collect.
\<close>

fun non_nil :: "error list \<Rightarrow> err list" where
  "non_nil [] = []"
| "non_nil (None # errs) = non_nil errs"
| "non_nil (Some x # errs) = x # non_nil errs"

text \<open>
  \<^verbatim>\<open>Join\<close> is \<^verbatim>\<open>errors.Join\<close>, from its documented behaviour: nil values are
  discarded, and the result is nil when none is left. \<^verbatim>\<open>MultiError\<close> filters with
  its own loop first and returns a single survivor as it is.
\<close>

definition Join :: "error list \<Rightarrow> error" where
  "Join errs =
     (let es = fold (\<lambda>e acc. case e of None \<Rightarrow> acc | Some x \<Rightarrow> acc @ [x]) errs []
      in if length es = 0 then None else Some (EJoin es))"

definition MultiError :: "error list \<Rightarrow> error" where
  "MultiError errs =
     (let nonNil = fold (\<lambda>e acc. case e of None \<Rightarrow> acc | Some x \<Rightarrow> acc @ [x]) errs []
      in if length nonNil = 0 then None
         else if length nonNil = 1 then Some (nonNil ! 0)
         else Join (map Some nonNil))"

text \<open>
  \<^verbatim>\<open>PublicError\<close>. Each \<^verbatim>\<open>err.(*T)\<close> tests the dynamic type of \<open>err\<close> itself, so the
  cascade of type assertions is a case distinction on the constructor. An
  \<^verbatim>\<open>*AppError\<close> with an empty user message fails the first test and every later one.
\<close>

fun PublicError :: "error \<Rightarrow> string" where
  "PublicError None = []"
| "PublicError (Some (EApp ae)) =
     (if UserMsg ae \<noteq> [] then UserMsg ae else ''an error occurred'')"
| "PublicError (Some (EField fe field reason)) = UserMsg fe"
| "PublicError (Some (ELimit le remaining reset)) = UserMsg le"
| "PublicError (Some (ETimeout te deadline)) = UserMsg te"
| "PublicError (Some (ERBAC rbac role action resource)) = UserMsg rbac"
| "PublicError (Some other) = ''an error occurred''"

section \<open>Serialization\<close>

subsection \<open>RFC 3339 timestamps\<close>

text \<open>
  \<^verbatim>\<open>Timestamp.Format(time.RFC3339)\<close> and \<^verbatim>\<open>time.Parse(time.RFC3339, ts)\<close> belong to the
  standard library; they are modelled from its behaviour on the layout
  \<^verbatim>\<open>2006-01-02T15:04:05Z07:00\<close>.

  \<open>appendInt\<close> writes an integer in decimal, with a minus sign when negative and
  zero-padded to at least \<open>width\<close> digits; a wider number keeps all its digits.
\<close>

definition digit_char :: "nat \<Rightarrow> char" where
  "digit_char d = char_of (48 + d)"

fun decimal :: "nat \<Rightarrow> string" where
  "decimal n = (if n < 10 then [digit_char n] else decimal (n div 10) @ [digit_char (n mod 10)])"

declare decimal.simps [simp del]

definition appendInt :: "int \<Rightarrow> nat \<Rightarrow> string" where
  "appendInt x width =
     (let ds = decimal (nat \<bar>x\<bar>)
      in (if x < 0 then ''-'' else []) @ replicate (width - length ds) (CHR ''0'') @ ds)"

text \<open>
  Go's integer division truncates toward zero.
\<close>

definition go_quot :: "int \<Rightarrow> int \<Rightarrow> int" where
  "go_quot a b = sgn a * sgn b * (\<bar>a\<bar> div \<bar>b\<bar>)"

text \<open>
  The zone is \<open>Z\<close> for offset zero, else a sign, hours and minutes: the offset is
  cut to whole minutes first. The second, minute, hour, day and month take two
  digits, the year four or more.
\<close>

definition formatZone :: "int \<Rightarrow> string" where
  "formatZone offset =
     (if offset = 0 then ''Z''
      else (let zone = go_quot offset 60
            in if zone < 0
               then ''-'' @ appendInt ((- zone) div 60) 2 @ '':'' @ appendInt ((- zone) mod 60) 2
               else ''+'' @ appendInt (zone div 60) 2 @ '':'' @ appendInt (zone mod 60) 2))"

definition Format_RFC3339 :: "Time \<Rightarrow> string" where
  "Format_RFC3339 t =
     appendInt (year t) 4 @ ''-'' @ appendInt (int (month t)) 2 @ ''-'' @
     appendInt (int (day t)) 2 @ ''T'' @ appendInt (int (hour t)) 2 @ '':'' @
     appendInt (int (minute t)) 2 @ '':'' @ appendInt (int (sec t)) 2 @
     formatZone (zoneOffset t)"

text \<open>
  The calendar: leap years and the length of a month (\<open>daysBefore ! m\<close> is the number
  of days before month \<open>m + 1\<close> in a common year).
\<close>

definition isLeap :: "int \<Rightarrow> bool" where
  "isLeap y = (y mod 4 = 0 \<and> (y mod 100 \<noteq> 0 \<or> y mod 400 = 0))"

definition daysBefore :: "nat list" where
  "daysBefore = [0, 31, 59, 90, 120, 151, 181, 212, 243, 273, 304, 334, 365]"









text \<open>
  The instant of a reading: seconds since January 1, year 1, 00:00:00 UTC, in the
  proleptic Gregorian calendar. \<^verbatim>\<open>IsZero\<close> is true of that instant only. Two times are
  the same instant to the second when their \<open>absSeconds\<close> agree.
\<close>

definition daysSinceYear1 :: "Time \<Rightarrow> int" where
  "daysSinceYear1 t =
     (let y = year t - 1
      in 365 * y + y div 4 - y div 100 + y div 400 + int (daysBefore ! (month t - 1)) +
         (if isLeap (year t) \<and> 2 < month t then 1 else 0) + (int (day t) - 1))"

definition absSeconds :: "Time \<Rightarrow> int" where
  "absSeconds t =
     daysSinceYear1 t * 86400 + int (hour t) * 3600 + int (minute t) * 60 + int (sec t)
       - zoneOffset t"

definition IsZero :: "Time \<Rightarrow> bool" where
  "IsZero t = (absSeconds t = 0 \<and> nsec t = 0)"



subsection \<open>Redaction\<close>

text \<open>
  \<^verbatim>\<open>strings.ToLower\<close>. A string of ASCII bytes only has its letters A to Z lowered and
  every other byte kept. Any other string goes through
  \<^verbatim>\<open>strings.Map(unicode.ToLower, s)\<close>, whose case tables belong to the standard
  library: that function is the argument \<open>unicodeLower\<close> of everything below that
  lowers a key, and every statement holds whatever it is.
\<close>

definition toLower_char :: "char \<Rightarrow> char" where
  "toLower_char c =
     (if 65 \<le> (of_char c :: nat) \<and> (of_char c :: nat) \<le> 90 then char_of ((of_char c :: nat) + 32)
      else c)"

definition isASCII :: "string \<Rightarrow> bool" where
  "isASCII s = list_all (\<lambda>c. (of_char c :: nat) < 128) s"

definition ToLower :: "(string \<Rightarrow> string) \<Rightarrow> string \<Rightarrow> string" where
  "ToLower unicodeLower s = (if isASCII s then map toLower_char s else unicodeLower s)"

text \<open>
  \<^verbatim>\<open>strings.HasPrefix\<close> and \<^verbatim>\<open>strings.Contains\<close>, on bytes. A missing key of
  \<^verbatim>\<open>map[string]bool\<close> reads as false.
\<close>

definition HasPrefix :: "string \<Rightarrow> string \<Rightarrow> bool" where
  "HasPrefix s p = (length p \<le> length s \<and> take (length p) s = p)"

fun Contains :: "string \<Rightarrow> string \<Rightarrow> bool" where
  "Contains [] sub = HasPrefix [] sub"
| "Contains (c # s) sub = (HasPrefix (c # s) sub \<or> Contains s sub)"

definition pIIFields :: "(string, bool) fmap" where
  "pIIFields = fmap_of_list
     [(''password'', True), (''token'', True), (''secret'', True), (''email'', True),
      (''ssn'', True), (''credit_card'', True), (''api_key'', True)]"

definition lookup_bool :: "(string, bool) fmap \<Rightarrow> string \<Rightarrow> bool" where
  "lookup_bool m k = (case fmlookup m k of Some b \<Rightarrow> b | None \<Rightarrow> False)"

definition isPIIField :: "(string \<Rightarrow> string) \<Rightarrow> string \<Rightarrow> bool" where
  "isPIIField unicodeLower k =
     (let lower = ToLower unicodeLower k
      in lookup_bool pIIFields lower \<or> Contains lower ''password'' \<or>
         Contains lower ''token'' \<or> Contains lower ''secret'')"

text \<open>
  \<^verbatim>\<open>redactMetadata\<close>: the loop over the entries of \<open>m\<close>, in key order here, writing
  each key into a fresh map. Only the keys of \<open>m\<close> itself are looked at: a map nested
  in a value is copied as it is.
\<close>

definition redactMetadata :: "(string \<Rightarrow> string) \<Rightarrow> (string, any) fmap \<Rightarrow> (string, any) fmap" where
  "redactMetadata unicodeLower m =
     fold (\<lambda>(k, v) out. if isPIIField unicodeLower k then fmupd k (Str ''[REDACTED]'') out
                         else fmupd k v out)
       (sorted_list_of_fmap m) fmempty"

subsection \<open>JSON\<close>

text \<open>
  \<^verbatim>\<open>json.Marshal\<close> and \<^verbatim>\<open>json.Unmarshal\<close> belong to the standard library. A JSON document
  is a tree; a number is kept as its literal. A byte slice is modelled by what the
  decoder reads in it: a document, or nothing well formed. The byte syntax in
  between (escapes, white space, the order of members) is not modelled; of two
  members with one key the decoder keeps the last, so an object is a finite map.
\<close>

datatype json =
    JNull
  | JBool bool
  | JNum string
  | JStr string
  | JArr "json list"
  | JObj "(string, json) fmap"

datatype bytes = Document json | Malformed

datatype json_error = SyntaxError | UnmarshalTypeError | UnsupportedValue

text \<open>
  The encoder writes every string, keys included, with each byte that does not
  begin a well-formed UTF-8 sequence replaced by U+FFFD, which is the three bytes
  EF BF BD. \<open>runeLen\<close> is the length of the well-formed sequence at the head of a byte
  list, by the table of \<^verbatim>\<open>utf8.DecodeRune\<close> (no overlong forms, no surrogates, nothing
  above U+10FFFF), and 0 when there is none; \<open>coerceUTF8 k\<close> copies \<open>k\<close> bytes of a
  sequence already recognised and then goes on recognising. A string is valid
  UTF-8, as \<^verbatim>\<open>utf8.ValidString\<close> has it, exactly when nothing in it is replaced.
\<close>

definition inRanges :: "nat list \<Rightarrow> (nat \<times> nat) list \<Rightarrow> bool" where
  "inRanges bs rs =
     (length rs \<le> length bs \<and> list_all2 (\<lambda>b (lo, hi). lo \<le> b \<and> b \<le> hi) (take (length rs) bs) rs)"

definition runeLen :: "nat list \<Rightarrow> nat" where
  "runeLen s =
     (case s of
        [] \<Rightarrow> 0
      | a # bs \<Rightarrow>
          if a < 128 then 1
          else if 194 \<le> a \<and> a \<le> 223 then (if inRanges bs [(128, 191)] then 2 else 0)
          else if a = 224 then (if inRanges bs [(160, 191), (128, 191)] then 3 else 0)
          else if (225 \<le> a \<and> a \<le> 236) \<or> a = 238 \<or> a = 239
            then (if inRanges bs [(128, 191), (128, 191)] then 3 else 0)
          else if a = 237 then (if inRanges bs [(128, 159), (128, 191)] then 3 else 0)
          else if a = 240 then (if inRanges bs [(144, 191), (128, 191), (128, 191)] then 4 else 0)
          else if 241 \<le> a \<and> a \<le> 243
            then (if inRanges bs [(128, 191), (128, 191), (128, 191)] then 4 else 0)
          else if a = 244 then (if inRanges bs [(128, 143), (128, 191), (128, 191)] then 4 else 0)
          else 0)"

definition RuneError :: string where
  "RuneError = [char_of (239 :: nat), char_of (191 :: nat), char_of (189 :: nat)]"

fun coerceUTF8 :: "nat \<Rightarrow> string \<Rightarrow> string" where
  "coerceUTF8 k [] = []"
| "coerceUTF8 (Suc k) (c # cs) = c # coerceUTF8 k cs"
| "coerceUTF8 0 (c # cs) =
     (let n = runeLen (map of_char (c # cs))
      in if n = 0 then RuneError @ coerceUTF8 0 cs
         else c # coerceUTF8 (n - 1) cs)"

definition coerceString :: "string \<Rightarrow> string" where
  "coerceString s = coerceUTF8 0 s"

definition validUTF8 :: "string \<Rightarrow> bool" where
  "validUTF8 s = (coerceString s = s)"

text \<open>
  \<^verbatim>\<open>json.Marshal\<close> of a value. An integer is written in decimal and a float as its
  literal; a map is written member by member, in key order, under its coerced keys
  (of two keys that coerce to the same string the later one is what a reader
  keeps); a value without encoding, at any depth, makes the whole call fail with no
  bytes.
\<close>

definition itoa :: "int \<Rightarrow> string" where
  "itoa n = appendInt n 0"

fun sequence :: "'a option list \<Rightarrow> 'a list option" where
  "sequence [] = Some []"
| "sequence (None # xs) = None"
| "sequence (Some x # xs) = (case sequence xs of None \<Rightarrow> None | Some ys \<Rightarrow> Some (x # ys))"

definition rekey :: "(string, json) fmap \<Rightarrow> (string, json) fmap" where
  "rekey m = fold (\<lambda>(k, v) out. fmupd (coerceString k) v out) (sorted_list_of_fmap m) fmempty"

definition members :: "(string, 'a option) fmap \<Rightarrow> (string, 'a) fmap option" where
  "members m = (if fmpred (\<lambda>k v. v \<noteq> None) m then Some (fmmap the m) else None)"

primrec json_encode :: "any \<Rightarrow> json option" where
  "json_encode Null = Some JNull"
| "json_encode (Bool b) = Some (JBool b)"
| "json_encode (IntV n) = Some (JNum (itoa n))"
| "json_encode (Float64 lit) = Some (JNum lit)"
| "json_encode (Str s) = Some (JStr (coerceString s))"
| "json_encode (Slice xs) = map_option JArr (sequence (map json_encode xs))"
| "json_encode (MapV m) = map_option (\<lambda>ms. JObj (rekey ms)) (members (fmmap json_encode m))"
| "json_encode Unencodable = None"

definition json_Marshal :: "any \<Rightarrow> json_error + bytes" where
  "json_Marshal v = (case json_encode v of None \<Rightarrow> Inl UnsupportedValue | Some j \<Rightarrow> Inr (Document j))"



text \<open>
  \<^verbatim>\<open>len(m)\<close> of a map, and the two type assertions \<^verbatim>\<open>v.(string)\<close> and
  \<^verbatim>\<open>v.(map[string]any)\<close> on the result of a map lookup.
\<close>

definition len_map :: "(string, any) fmap \<Rightarrow> nat" where
  "len_map m = fcard (fmdom m)"



text \<open>
  \<^verbatim>\<open>MarshalJSON\<close>, statement by statement: \<open>MarshalJSON_map\<close> is the map \<open>m\<close> at the
  \<^verbatim>\<open>return\<close>, and the result is \<^verbatim>\<open>json.Marshal(m)\<close>. \<^verbatim>\<open>UnmarshalJSON\<close> updates the
  receiver \<open>e\<close>; a timestamp that does not parse becomes the zero time.
\<close>

definition MarshalJSON_map :: "(string \<Rightarrow> string) \<Rightarrow> AppError \<Rightarrow> (string, any) fmap" where
  "MarshalJSON_map unicodeLower e =
     (let m0 = fmupd ''message'' (Str (UserMsg e))
                 (fmupd ''kind'' (Str (Kind e)) (fmupd ''code'' (Str (Code e)) fmempty));
          m1 = (if TraceID e \<noteq> [] then fmupd ''trace_id'' (Str (TraceID e)) m0 else m0);
          m2 = (if RequestID e \<noteq> [] then fmupd ''request_id'' (Str (RequestID e)) m1 else m1);
          m3 = (if \<not> IsZero (Timestamp e)
                then fmupd ''timestamp'' (Str (Format_RFC3339 (Timestamp e))) m2 else m2);
          m4 = (if 0 < len_map (Metadata e)
                then fmupd ''metadata'' (MapV (redactMetadata unicodeLower (Metadata e))) m3
                else m3)
      in m4)"

definition MarshalJSON :: "(string \<Rightarrow> string) \<Rightarrow> AppError \<Rightarrow> json_error + bytes" where
  "MarshalJSON unicodeLower e = json_Marshal (MapV (MarshalJSON_map unicodeLower e))"







section \<open>Auxiliary facts\<close>

subsection \<open>Options\<close>

lemma fold_options_keeps_Kind:
  "list_all keeps_Kind opts \<Longrightarrow> Kind (fold (\<lambda>opt e. opt e) opts e) = Kind e"
  by (induction opts arbitrary: e) (simp_all add: keeps_Kind_def)

lemma fold_options_keeps_UserMsg:
  "list_all keeps_UserMsg opts \<Longrightarrow> UserMsg (fold (\<lambda>opt e. opt e) opts e) = UserMsg e"
  by (induction opts arbitrary: e) (simp_all add: keeps_UserMsg_def)

lemma package_options_keep_UserMsg:
  "keeps_UserMsg (WithCause c)" "keeps_UserMsg (WithKind k)" "keeps_UserMsg (WithTraceID t)"
  "keeps_UserMsg (WithRequestID r)" "keeps_UserMsg (WithRetryable b)"
  "keeps_UserMsg (WithTimeout b)" "keeps_UserMsg (WithMetadata m)"
  by (simp_all add: keeps_UserMsg_def With_defs set_defs)

lemma package_options_keep_Kind:
  "keeps_Kind (WithCause c)" "keeps_Kind (WithTraceID t)"
  "keeps_Kind (WithRequestID r)" "keeps_Kind (WithRetryable b)"
  "keeps_Kind (WithTimeout b)" "keeps_Kind (WithMetadata m)"
  by (simp_all add: keeps_Kind_def With_defs set_defs)

subsection \<open>Chains\<close>

lemma RootCause_loop_chain_end:
  "chain_end unwrap e r \<Longrightarrow> RootCause_loop unwrap e = Some r"
  by (induction rule: chain_end.induct) (simp_all add: RootCause_loop.simps)

lemma chain_end_last:
  "chain_end unwrap e r \<Longrightarrow> unwrap r = None \<or> unwrap r = Some None"
  by (induction rule: chain_end.induct) simp_all

lemma chain_end_exists: "\<exists>r. chain_end Unwrap_method e r"
proof (induction e rule: measure_induct_rule [of size])
  case (less e)
  show ?case
  proof (cases "Unwrap_method e")
    case None
    then show ?thesis by (blast intro: chain_end.no_method)
  next
    case (Some nxt)
    show ?thesis
    proof (cases nxt)
      case None
      with Some show ?thesis by (blast intro: chain_end.nil_next)
    next
      case (Some n)
      with \<open>Unwrap_method e = Some nxt\<close> have u: "Unwrap_method e = Some (Some n)" by simp
      then have "size n < size e" by (rule size_Unwrap_method)
      then obtain r where "chain_end Unwrap_method n r" using less.IH by blast
      with u show ?thesis by (blast intro: chain_end.step)
    qed
  qed
qed

text \<open>
  On a chain that cycles back to the same error the traversal does not return.
\<close>

lemma RootCause_loop_cycle_aux:
  assumes cyc: "unwrap e = Some (Some e)"
    and ret: "RootCause_loop u x = Some y"
  shows "\<not> (u = unwrap \<and> x = e)"
proof (rule RootCause_loop.raw_induct [where P = "\<lambda>u x y. \<not> (u = unwrap \<and> x = e)", OF _ ret])
  fix f and u' :: "'a \<Rightarrow> 'a option option" and x' y' :: 'a
  assume IH: "\<And>u x y. f u x = Some y \<Longrightarrow> \<not> (u = unwrap \<and> x = e)"
    and body: "(case u' x' of None \<Rightarrow> Some x'
                | Some nxt \<Rightarrow> (case nxt of None \<Rightarrow> Some x' | Some n \<Rightarrow> f u' n)) = Some y'"
  show "\<not> (u' = unwrap \<and> x' = e)"
  proof
    assume "u' = unwrap \<and> x' = e"
    with body cyc have "f unwrap e = Some y'" by simp
    with IH show False by blast
  qed
qed

lemma RootCause_loop_cycle:
  assumes "unwrap e = Some (Some e)"
  shows "RootCause_loop unwrap e = None"
proof (cases "RootCause_loop unwrap e")
  case None
  then show ?thesis .
next
  case (Some y)
  then show ?thesis using RootCause_loop_cycle_aux [of unwrap e unwrap e y] assms by simp
qed

lemma filter_loop:
  "fold (\<lambda>e acc. case e of None \<Rightarrow> acc | Some x \<Rightarrow> acc @ [x]) errs acc = acc @ non_nil errs"
  by (induction errs arbitrary: acc rule: non_nil.induct) simp_all

lemma non_nil_map_Some: "non_nil (map Some xs) = xs"
  by (induction xs) simp_all

lemma non_nil_member: "Some x \<in> set errs \<longleftrightarrow> x \<in> set (non_nil errs)"
  by (induction errs rule: non_nil.induct) auto

lemma MultiError_many:
  "2 \<le> length (non_nil errs) \<Longrightarrow> MultiError errs = Some (EJoin (non_nil errs))"
  by (auto simp: MultiError_def Join_def filter_loop Let_def non_nil_map_Some)

lemma Is_walk_refl: "Is_walk e e"
  by (simp add: Is_walk.simps)

lemma Is_walk_Join: "x \<in> set es \<Longrightarrow> Is_walk (EJoin es) x"
  by (subst Is_walk.simps) (auto simp: list_ex_iff intro: Is_walk_refl)

lemma Is_walk_Wrap: "Is_walk (EWrap m (Some e)) e"
  by (subst Is_walk.simps) (auto intro: Is_walk_refl)

subsection \<open>Digits\<close>

lemma of_char_digit: "d < 10 \<Longrightarrow> (of_char (digit_char d) :: nat) = 48 + d"
  by (simp add: digit_char_def)









lemma digits2_value: "10 * (n div 10) + n mod 10 = (n::nat)"
  by simp



lemma char_of_lit:
  fixes c :: char
  assumes "(of_char c :: nat) = n"
  shows "char_of n = c"
  using assms by (metis char_of_char)



subsection \<open>Formatting and parsing a timestamp\<close>






lemma absSeconds_zeroTime: "absSeconds zeroTime = 0"
  by (simp add: absSeconds_def daysSinceYear1_def zeroTime_def daysBefore_def isLeap_def)






subsection \<open>Maps and redaction\<close>

lemma len_map_pos: "0 < len_map m \<longleftrightarrow> m \<noteq> fmempty"
proof -
  have "fmdom m = {||} \<longleftrightarrow> m = fmempty"
  proof
    assume d: "fmdom m = {||}"
    show "m = fmempty"
    proof (rule fmap_ext)
      fix x
      have "x |\<notin>| fmdom m" using d by simp
      then show "fmlookup m x = fmlookup fmempty x" by (simp add: fmdom_notD)
    qed
  qed simp
  moreover have "0 < fcard (fmdom m) \<longleftrightarrow> fmdom m \<noteq> {||}"
    using fcard_0_eq [of "fmdom m"] by (auto simp: fcard_fempty)
  ultimately show ?thesis by (simp add: len_map_def)
qed

lemma fold_fmupd_lookup:
  "distinct (map fst kvs) \<Longrightarrow>
   fmlookup (fold (\<lambda>(k, v) out. fmupd k (f k v) out) kvs acc) k =
     (case map_of kvs k of Some v \<Rightarrow> Some (f k v) | None \<Rightarrow> fmlookup acc k)"
proof (induction kvs arbitrary: acc)
  case Nil
  then show ?case by simp
next
  case (Cons kv kvs)
  obtain k0 v0 where kv: "kv = (k0, v0)" by (cases kv)
  from Cons.prems kv have d: "distinct (map fst kvs)" and n: "map_of kvs k0 = None"
    by (auto simp: map_of_eq_None_iff)
  show ?case
    using Cons.IH [OF d, of "fmupd k0 (f k0 v0) acc"] n
    by (auto simp: kv split: option.splits)
qed

lemma distinct_sorted_list_of_fmap: "distinct (map fst (sorted_list_of_fmap m))"
  by (simp add: sorted_list_of_fmap_def comp_def sorted_list_of_fset.rep_eq)

lemma WithMetadata_merge:
  "Metadata (WithMetadata m e) = Metadata e ++\<^sub>f m"
proof (rule fmap_ext)
  fix k
  have "(\<lambda>(k, v) md. fmupd k v md) = (\<lambda>(k, v) md. fmupd k ((\<lambda>k v. v) k v) md)" by simp
  then show "fmlookup (Metadata (WithMetadata m e)) k = fmlookup (Metadata e ++\<^sub>f m) k"
    by (simp add: WithMetadata_def set_defs fold_fmupd_lookup [OF distinct_sorted_list_of_fmap]
        fmlookup_dom_iff split: option.splits)
qed

lemma HasPrefix_iff: "HasPrefix s p \<longleftrightarrow> (\<exists>q. s = p @ q)"
proof
  assume "HasPrefix s p"
  then have "s = p @ drop (length p) s"
    by (metis HasPrefix_def append_take_drop_id)
  then show "\<exists>q. s = p @ q" ..
next
  assume "\<exists>q. s = p @ q"
  then show "HasPrefix s p" by (auto simp: HasPrefix_def)
qed

lemma Contains_iff: "Contains s sub \<longleftrightarrow> (\<exists>p q. s = p @ sub @ q)"
proof (induction s)
  case Nil
  then show ?case by (auto simp: HasPrefix_iff)
next
  case (Cons c s)
  show ?case
  proof
    assume "Contains (c # s) sub"
    then consider "HasPrefix (c # s) sub" | "Contains s sub" by auto
    then show "\<exists>p q. c # s = p @ sub @ q"
    proof cases
      case 1
      then obtain q where "c # s = sub @ q" by (auto simp: HasPrefix_iff)
      then have "c # s = [] @ sub @ q" by simp
      then show ?thesis by blast
    next
      case 2
      then obtain p q where "s = p @ sub @ q" using Cons.IH by blast
      then have "c # s = (c # p) @ sub @ q" by simp
      then show ?thesis by blast
    qed
  next
    assume "\<exists>p q. c # s = p @ sub @ q"
    then obtain p q where pq: "c # s = p @ sub @ q" by blast
    show "Contains (c # s) sub"
    proof (cases p)
      case Nil
      with pq have "HasPrefix (c # s) sub" by (simp add: HasPrefix_iff)
      then show ?thesis by simp
    next
      case (Cons c' p')
      with pq have "s = p' @ sub @ q" by simp
      then show ?thesis using Cons.IH by auto
    qed
  qed
qed

subsection \<open>ASCII and UTF-8\<close>

lemma coerceUTF8_ascii: "isASCII s \<Longrightarrow> coerceUTF8 0 s = s"
  by (induction s) (simp_all add: isASCII_def runeLen_def)

lemma validUTF8_ascii: "isASCII s \<Longrightarrow> validUTF8 s"
  by (simp add: validUTF8_def coerceString_def coerceUTF8_ascii)

lemma coerceString_ascii: "isASCII s \<Longrightarrow> coerceString s = s"
  by (simp add: coerceString_def coerceUTF8_ascii)

lemma isASCII_append: "isASCII (xs @ ys) \<longleftrightarrow> isASCII xs \<and> isASCII ys"
  by (simp add: isASCII_def)

lemma isASCII_Cons: "isASCII (c # s) \<longleftrightarrow> (of_char c :: nat) < 128 \<and> isASCII s"
  by (simp add: isASCII_def)

lemma isASCII_Nil: "isASCII []"
  by (simp add: isASCII_def)

lemma isASCII_digit: "d < 10 \<Longrightarrow> isASCII [digit_char d]"
  by (simp add: isASCII_def of_char_digit)

lemma isASCII_decimal: "isASCII (decimal n)"
proof (induction n rule: decimal.induct)
  case (1 n)
  show ?case
  proof (cases "n < 10")
    case True
    then show ?thesis by (simp add: decimal.simps [of n] isASCII_digit)
  next
    case False
    then show ?thesis
      using 1 by (simp add: decimal.simps [of n] isASCII_append isASCII_digit)
  qed
qed

lemma isASCII_replicate_0: "isASCII (replicate k (CHR ''0''))"
  by (simp add: isASCII_def list_all_iff)

lemma isASCII_appendInt: "isASCII (appendInt x w)"
  by (simp add: appendInt_def Let_def isASCII_append isASCII_Cons isASCII_Nil isASCII_decimal
      isASCII_replicate_0)

lemma isASCII_formatZone: "isASCII (formatZone off)"
  by (simp add: formatZone_def Let_def isASCII_append isASCII_Cons isASCII_Nil isASCII_appendInt)

lemma isASCII_Format_RFC3339: "isASCII (Format_RFC3339 t)"
  by (simp add: Format_RFC3339_def isASCII_append isASCII_Cons isASCII_Nil isASCII_appendInt
      isASCII_formatZone)

lemma ToLower_ascii: "isASCII k \<Longrightarrow> ToLower unicodeLower k = map toLower_char k"
  by (simp add: ToLower_def)

lemma isASCII_keys:
  "isASCII ''code''" "isASCII ''kind''" "isASCII ''message''" "isASCII ''trace_id''"
  "isASCII ''request_id''" "isASCII ''timestamp''" "isASCII ''metadata''"
  by (simp_all add: isASCII_def)

lemma isASCII_REDACTED: "isASCII ''[REDACTED]''"
  by (simp add: isASCII_def)

lemma coerceString_FF: "coerceString [char_of (255 :: nat)] = RuneError"
  by (simp add: coerceString_def runeLen_def inRanges_def)


lemma validUTF8_lit: "validUTF8 ''Password''" "validUTF8 ''user_id''" "validUTF8 ''u1''"
  by (simp_all add: validUTF8_ascii isASCII_def)


subsection \<open>Sensitive keys\<close>

lemma redactMetadata_step:
  "(\<lambda>(k, v) out. if isPIIField ul k then fmupd k (Str ''[REDACTED]'') out else fmupd k v out) =
   (\<lambda>(k, v) out. fmupd k (if isPIIField ul k then Str ''[REDACTED]'' else v) out)"
  by (auto simp: fun_eq_iff)

lemma redactMetadata_lookup:
  "fmlookup (redactMetadata ul m) k =
     map_option (\<lambda>v. if isPIIField ul k then Str ''[REDACTED]'' else v) (fmlookup m k)"
  unfolding redactMetadata_def redactMetadata_step
  by (simp add: fold_fmupd_lookup [OF distinct_sorted_list_of_fmap] split: option.splits)

lemma redactMetadata_dom: "fmdom (redactMetadata ul m) = fmdom m"
  by (rule fset_eqI) (simp add: fmlookup_dom_iff redactMetadata_lookup)

lemma isPIIField_iff:
  "isPIIField ul k \<longleftrightarrow>
     ToLower ul k \<in> {''password'', ''token'', ''secret'', ''email'', ''ssn'', ''credit_card'',
                     ''api_key''} \<or>
     (\<exists>p q. ToLower ul k = p @ ''password'' @ q) \<or>
     (\<exists>p q. ToLower ul k = p @ ''token'' @ q) \<or>
     (\<exists>p q. ToLower ul k = p @ ''secret'' @ q)"
proof -
  have "lookup_bool pIIFields s \<longleftrightarrow>
      s \<in> {''password'', ''token'', ''secret'', ''email'', ''ssn'', ''credit_card'', ''api_key''}"
    for s
    by (simp add: lookup_bool_def pIIFields_def)
  then show ?thesis
    by (simp add: isPIIField_def Let_def Contains_iff)
qed

lemma isPIIField_Password: "isPIIField ul ''Password''"
  by (simp add: isPIIField_def ToLower_def isASCII_def toLower_char_def lookup_bool_def
      pIIFields_def HasPrefix_def Let_def char_of_lit)

lemma isPIIField_user_id: "\<not> isPIIField ul ''user_id''"
  by (simp add: isPIIField_def ToLower_def isASCII_def toLower_char_def lookup_bool_def
      pIIFields_def HasPrefix_def Let_def char_of_lit)

lemma isPIIField_ch: "\<not> isPIIField ul ''ch''"
  by (simp add: isPIIField_def ToLower_def isASCII_def toLower_char_def lookup_bool_def
      pIIFields_def HasPrefix_def Let_def char_of_lit)

lemma isPIIField_field: "\<not> isPIIField ul ''field''"
  by (simp add: isPIIField_def ToLower_def isASCII_def toLower_char_def lookup_bool_def
      pIIFields_def HasPrefix_def Let_def char_of_lit)

subsection \<open>The encoder\<close>

lemma fold_rekey_lookup:
  assumes "distinct (map fst kvs)"
    and "\<forall>k \<in> fst ` set kvs. g k = k"
  shows "fmlookup (fold (\<lambda>(k, v) out. fmupd (g k) v out) kvs acc) x =
     (case map_of kvs x of Some v \<Rightarrow> Some v | None \<Rightarrow> fmlookup acc x)"
proof -
  have "fold (\<lambda>(k, v) out. fmupd (g k) v out) kvs acc =
        fold (\<lambda>(k, v) out. fmupd k ((\<lambda>k v. v) k v) out) kvs acc"
    using assms(2) by (intro fold_cong) (auto simp: fun_eq_iff)
  then show ?thesis
    using fold_fmupd_lookup [OF assms(1), of "\<lambda>k v. v" acc x] by simp
qed

lemma rekey_valid:
  assumes "\<forall>k. k |\<in>| fmdom m \<longrightarrow> validUTF8 k"
  shows "rekey m = m"
proof (rule fmap_ext)
  fix x
  have keys: "fst ` set (sorted_list_of_fmap m) = fset (fmdom m)"
    by (simp add: sorted_list_of_fmap_def image_image sorted_list_of_fset.rep_eq)
  have "\<forall>k \<in> fst ` set (sorted_list_of_fmap m). coerceString k = k"
    using assms unfolding keys by (simp add: validUTF8_def)
  then show "fmlookup (rekey m) x = fmlookup m x"
    unfolding rekey_def
    by (simp add: fold_rekey_lookup [OF distinct_sorted_list_of_fmap] split: option.splits)
qed



lemma json_encode_MapV:
  "json_encode (MapV m) =
     (if \<forall>k v. fmlookup m k = Some v \<longrightarrow> json_encode v \<noteq> None
      then Some (JObj (rekey (fmmap (\<lambda>v. the (json_encode v)) m))) else None)"
  by (auto simp: members_def fmpred_iff fmap.map_comp comp_def)

lemma json_encode_redacted:
  "(\<forall>k v. fmlookup (redactMetadata ul md) k = Some v \<longrightarrow> json_encode v \<noteq> None) \<longleftrightarrow>
   fmpred (\<lambda>k v. isPIIField ul k \<or> json_encode v \<noteq> None) md"
  by (auto simp: redactMetadata_lookup fmpred_iff)

subsection \<open>The wire object\<close>

lemma MarshalJSON_map_members:
  "fmlookup (MarshalJSON_map ul e) ''code'' = Some (Str (Code e)) \<and>
   fmlookup (MarshalJSON_map ul e) ''kind'' = Some (Str (Kind e)) \<and>
   fmlookup (MarshalJSON_map ul e) ''message'' = Some (Str (UserMsg e)) \<and>
   fmlookup (MarshalJSON_map ul e) ''trace_id'' =
     (if TraceID e = [] then None else Some (Str (TraceID e))) \<and>
   fmlookup (MarshalJSON_map ul e) ''request_id'' =
     (if RequestID e = [] then None else Some (Str (RequestID e))) \<and>
   fmlookup (MarshalJSON_map ul e) ''timestamp'' =
     (if IsZero (Timestamp e) then None else Some (Str (Format_RFC3339 (Timestamp e)))) \<and>
   fmlookup (MarshalJSON_map ul e) ''metadata'' =
     (if Metadata e = fmempty then None else Some (MapV (redactMetadata ul (Metadata e)))) \<and>
   fmdom (MarshalJSON_map ul e) |\<subseteq>|
     {|''code'', ''kind'', ''message'', ''trace_id'', ''request_id'', ''timestamp'', ''metadata''|}"
  by (simp add: MarshalJSON_map_def Let_def len_map_pos)

lemma fmpred_if_upd:
  "fmpred P m \<Longrightarrow> (c \<Longrightarrow> P k v) \<Longrightarrow> fmpred P (if c then fmupd k v m else m)"
  by (auto intro: fmpred_upd)

lemma MarshalJSON_map_values:
  assumes "fmlookup (MarshalJSON_map ul e) k = Some v"
  shows "(\<exists>s. v = Str s) \<or> v = MapV (redactMetadata ul (Metadata e))"
proof -
  have "fmpred (\<lambda>k v. (\<exists>s. v = Str s) \<or> v = MapV (redactMetadata ul (Metadata e)))
      (MarshalJSON_map ul e)"
    unfolding MarshalJSON_map_def Let_def
    by (intro fmpred_if_upd fmpred_upd fmpred_empty) simp_all
  with assms show ?thesis
    by (auto simp: fmpred_iff)
qed

lemma MarshalJSON_map_keys:
  assumes "k |\<in>| fmdom (MarshalJSON_map ul e)"
  shows "validUTF8 k"
proof -
  have "fmdom (MarshalJSON_map ul e) |\<subseteq>|
     {|''code'', ''kind'', ''message'', ''trace_id'', ''request_id'', ''timestamp'', ''metadata''|}"
    by (simp add: MarshalJSON_map_def Let_def)
  with assms have "k |\<in>| {|''code'', ''kind'', ''message'', ''trace_id'', ''request_id'',
      ''timestamp'', ''metadata''|}"
    by (rule fsubsetD [rotated])
  then have "k = ''code'' \<or> k = ''kind'' \<or> k = ''message'' \<or> k = ''trace_id'' \<or>
      k = ''request_id'' \<or> k = ''timestamp'' \<or> k = ''metadata''"
    by (simp only: finsert_iff fempty_iff) simp
  then have "isASCII k"
    using isASCII_keys by (elim disjE) (simp_all only:)
  then show ?thesis by (rule validUTF8_ascii)
qed

lemma MarshalJSON_map_encodable:
  "(\<forall>k v. fmlookup (MarshalJSON_map ul e) k = Some v \<longrightarrow> json_encode v \<noteq> None) \<longleftrightarrow>
   fmpred (\<lambda>k v. isPIIField ul k \<or> json_encode v \<noteq> None) (Metadata e)"
proof
  assume a: "\<forall>k v. fmlookup (MarshalJSON_map ul e) k = Some v \<longrightarrow> json_encode v \<noteq> None"
  show "fmpred (\<lambda>k v. isPIIField ul k \<or> json_encode v \<noteq> None) (Metadata e)"
  proof (cases "Metadata e = fmempty")
    case True
    then show ?thesis by simp
  next
    case False
    then have "fmlookup (MarshalJSON_map ul e) ''metadata'' =
        Some (MapV (redactMetadata ul (Metadata e)))"
      using MarshalJSON_map_members [of ul e] by simp
    with a have "json_encode (MapV (redactMetadata ul (Metadata e))) \<noteq> None"
      by blast
    then have "\<forall>k v. fmlookup (redactMetadata ul (Metadata e)) k = Some v \<longrightarrow>
        json_encode v \<noteq> None"
      by (simp add: json_encode_MapV del: json_encode.simps split: if_splits)
    then show ?thesis by (simp only: json_encode_redacted)
  qed
next
  assume p: "fmpred (\<lambda>k v. isPIIField ul k \<or> json_encode v \<noteq> None) (Metadata e)"
  then have "\<forall>k v. fmlookup (redactMetadata ul (Metadata e)) k = Some v \<longrightarrow>
      json_encode v \<noteq> None"
    by (simp only: json_encode_redacted)
  then have r: "json_encode (MapV (redactMetadata ul (Metadata e))) \<noteq> None"
    by (simp add: json_encode_MapV del: json_encode.simps)
  show "\<forall>k v. fmlookup (MarshalJSON_map ul e) k = Some v \<longrightarrow> json_encode v \<noteq> None"
  proof (intro allI impI)
    fix k v
    assume "fmlookup (MarshalJSON_map ul e) k = Some v"
    from MarshalJSON_map_values [OF this] r show "json_encode v \<noteq> None"
      by auto
  qed
qed

text \<open>
  The outcome of \<^verbatim>\<open>MarshalJSON\<close>: bytes exactly when every metadata value that
  redaction keeps has an encoding.
\<close>

lemma MarshalJSON_result:
  "MarshalJSON ul e =
     (if fmpred (\<lambda>k v. isPIIField ul k \<or> json_encode v \<noteq> None) (Metadata e)
      then Inr (Document (JObj (fmmap (\<lambda>v. the (json_encode v)) (MarshalJSON_map ul e))))
      else Inl UnsupportedValue)"
proof -
  have "rekey (fmmap (\<lambda>v. the (json_encode v)) (MarshalJSON_map ul e)) =
        fmmap (\<lambda>v. the (json_encode v)) (MarshalJSON_map ul e)"
    by (rule rekey_valid) (simp add: MarshalJSON_map_keys)
  then show ?thesis
    unfolding MarshalJSON_def json_Marshal_def json_encode_MapV MarshalJSON_map_encodable
    by simp
qed

lemma MarshalJSON_wire_metadata:
  assumes enc: "fmpred (\<lambda>k v. isPIIField ul k \<or> json_encode v \<noteq> None) md"
    and keys: "fmpred (\<lambda>k v. validUTF8 k) md"
  shows "\<exists>r. json_encode (MapV (redactMetadata ul md)) = Some (JObj r) \<and>
      fmdom r = fmdom md \<and>
      (\<forall>k v. fmlookup md k = Some v \<longrightarrow>
         fmlookup r k = (if isPIIField ul k then Some (JStr ''[REDACTED]'') else json_encode v))"
proof -
  let ?r = "fmmap (\<lambda>v. the (json_encode v)) (redactMetadata ul md)"
  have a: "\<forall>k v. fmlookup (redactMetadata ul md) k = Some v \<longrightarrow> json_encode v \<noteq> None"
    using enc by (simp only: json_encode_redacted)
  have "\<forall>k. k |\<in>| fmdom ?r \<longrightarrow> validUTF8 k"
    using keys by (auto simp: redactMetadata_dom fmpred_iff fmlookup_dom_iff)
  then have "rekey ?r = ?r" by (rule rekey_valid)
  with a have 1: "json_encode (MapV (redactMetadata ul md)) = Some (JObj ?r)"
    by (simp add: json_encode_MapV del: json_encode.simps)
  have 2: "fmdom ?r = fmdom md"
    by (simp add: redactMetadata_dom)
  have 3: "\<forall>k v. fmlookup md k = Some v \<longrightarrow>
         fmlookup ?r k = (if isPIIField ul k then Some (JStr ''[REDACTED]'') else json_encode v)"
  proof (intro allI impI)
    fix k v
    assume l: "fmlookup md k = Some v"
    with enc have "isPIIField ul k \<or> json_encode v \<noteq> None"
      by (auto simp: fmpred_iff)
    then show "fmlookup ?r k =
        (if isPIIField ul k then Some (JStr ''[REDACTED]'') else json_encode v)"
      using l by (auto simp: redactMetadata_lookup coerceString_ascii [OF isASCII_REDACTED])
  qed
  from 1 2 3 show ?thesis by (intro exI [of _ ?r] conjI)
qed

lemma MarshalJSON_wire:
  assumes enc: "fmpred (\<lambda>k v. isPIIField ul k \<or> json_encode v \<noteq> None) (Metadata e)"
  shows "\<exists>j. MarshalJSON ul e = Inr (Document (JObj j)) \<and>
      fmdom j = fmdom (MarshalJSON_map ul e) \<and>
      fmlookup j ''code'' = Some (JStr (coerceString (Code e))) \<and>
      fmlookup j ''kind'' = Some (JStr (coerceString (Kind e))) \<and>
      fmlookup j ''message'' = Some (JStr (coerceString (UserMsg e))) \<and>
      fmlookup j ''trace_id'' =
        (if TraceID e = [] then None else Some (JStr (coerceString (TraceID e)))) \<and>
      fmlookup j ''request_id'' =
        (if RequestID e = [] then None else Some (JStr (coerceString (RequestID e)))) \<and>
      fmlookup j ''timestamp'' =
        (if IsZero (Timestamp e) then None else Some (JStr (Format_RFC3339 (Timestamp e)))) \<and>
      fmlookup j ''metadata'' =
        (if Metadata e = fmempty then None
         else json_encode (MapV (redactMetadata ul (Metadata e))))"
proof -
  let ?j = "fmmap (\<lambda>v. the (json_encode v)) (MarshalJSON_map ul e)"
  note m = MarshalJSON_map_members [of ul e]
  have 0: "MarshalJSON ul e = Inr (Document (JObj ?j))"
    using enc by (simp only: MarshalJSON_result if_True)
  have md: "Metadata e \<noteq> fmempty \<Longrightarrow>
      Some (the (json_encode (MapV (redactMetadata ul (Metadata e))))) =
      json_encode (MapV (redactMetadata ul (Metadata e)))"
  proof -
    have "\<forall>k v. fmlookup (redactMetadata ul (Metadata e)) k = Some v \<longrightarrow> json_encode v \<noteq> None"
      using enc by (simp only: json_encode_redacted)
    then show ?thesis
      by (simp add: json_encode_MapV del: json_encode.simps)
  qed
  have 1: "fmdom ?j = fmdom (MarshalJSON_map ul e)" by simp
  have 2: "fmlookup ?j ''code'' = Some (JStr (coerceString (Code e)))"
    using m by simp
  have 3: "fmlookup ?j ''kind'' = Some (JStr (coerceString (Kind e)))"
    using m by simp
  have 4: "fmlookup ?j ''message'' = Some (JStr (coerceString (UserMsg e)))"
    using m by simp
  have 5: "fmlookup ?j ''trace_id'' =
        (if TraceID e = [] then None else Some (JStr (coerceString (TraceID e))))"
    using m by simp
  have 6: "fmlookup ?j ''request_id'' =
        (if RequestID e = [] then None else Some (JStr (coerceString (RequestID e))))"
    using m by simp
  have 7: "fmlookup ?j ''timestamp'' =
        (if IsZero (Timestamp e) then None else Some (JStr (Format_RFC3339 (Timestamp e))))"
    using m by (simp add: coerceString_ascii [OF isASCII_Format_RFC3339])
  have 8: "fmlookup ?j ''metadata'' =
        (if Metadata e = fmempty then None
         else json_encode (MapV (redactMetadata ul (Metadata e))))"
    using m md by (simp del: json_encode.simps)
  from 0 1 2 3 4 5 6 7 8 show ?thesis by (intro exI [of _ ?j] conjI)
qed

subsection \<open>The decoder\<close>







lemma IsZero_zeroTime: "IsZero zeroTime"
  by (simp add: IsZero_def absSeconds_zeroTime) (simp add: zeroTime_def)



section \<open>Properties of the package\<close>

text \<open>
  C1, as the code has it. For every error, \<^verbatim>\<open>MarshalJSON\<close> hands the encoder a map
  with the keys code, kind and message, the message being the user message, and no
  key outside code, kind, message, trace_id, request_id, timestamp and metadata.
  When the error has metadata, the member metadata is a map with the same keys in
  which the value of every sensitive key is the marker \<open>[REDACTED]\<close> and every other
  value is the one the error holds. A key is sensitive exactly when
  \<^verbatim>\<open>strings.ToLower\<close> of it is one of password, token, secret, email, ssn,
  credit_card, api_key, or contains password, token or secret; on an ASCII key that
  is the key with A to Z lowered. When every value under a key that is not
  sensitive has an encoding, the result is a JSON object with the members of that
  map, every string written with its ill-formed bytes replaced by U+FFFD; it has no
  member internalMessage, cause or stackTrace, and when the metadata keys are valid
  UTF-8 its member metadata has those keys, the marker under the sensitive ones and
  the encoding of the value under the others. Otherwise the result is the encoder's
  error and no bytes.
\<close>

theorem MarshalJSON_safe_exposure:
  "MarshalJSON ul e = json_Marshal (MapV (MarshalJSON_map ul e)) \<and>
   fmlookup (MarshalJSON_map ul e) ''code'' = Some (Str (Code e)) \<and>
   fmlookup (MarshalJSON_map ul e) ''kind'' = Some (Str (Kind e)) \<and>
   fmlookup (MarshalJSON_map ul e) ''message'' = Some (Str (UserMsg e)) \<and>
   fmdom (MarshalJSON_map ul e) |\<subseteq>|
     {|''code'', ''kind'', ''message'', ''trace_id'', ''request_id'', ''timestamp'', ''metadata''|} \<and>
   fmlookup (MarshalJSON_map ul e) ''metadata'' =
     (if Metadata e = fmempty then None else Some (MapV (redactMetadata ul (Metadata e)))) \<and>
   fmdom (redactMetadata ul (Metadata e)) = fmdom (Metadata e) \<and>
   (\<forall>k v. fmlookup (Metadata e) k = Some v \<longrightarrow>
      fmlookup (redactMetadata ul (Metadata e)) k =
        Some (if isPIIField ul k then Str ''[REDACTED]'' else v)) \<and>
   (isPIIField ul key \<longleftrightarrow>
      ToLower ul key \<in> {''password'', ''token'', ''secret'', ''email'', ''ssn'', ''credit_card'',
                         ''api_key''} \<or>
      (\<exists>p q. ToLower ul key = p @ ''password'' @ q) \<or>
      (\<exists>p q. ToLower ul key = p @ ''token'' @ q) \<or>
      (\<exists>p q. ToLower ul key = p @ ''secret'' @ q)) \<and>
   (isASCII key \<longrightarrow> ToLower ul key = map toLower_char key) \<and>
   (if fmpred (\<lambda>k v. isPIIField ul k \<or> json_encode v \<noteq> None) (Metadata e)
    then \<exists>j. MarshalJSON ul e = Inr (Document (JObj j)) \<and>
           fmdom j = fmdom (MarshalJSON_map ul e) \<and>
           fmlookup j ''code'' = Some (JStr (coerceString (Code e))) \<and>
           fmlookup j ''kind'' = Some (JStr (coerceString (Kind e))) \<and>
           fmlookup j ''message'' = Some (JStr (coerceString (UserMsg e))) \<and>
           fmlookup j ''internalMessage'' = None \<and>
           fmlookup j ''cause'' = None \<and>
           fmlookup j ''stackTrace'' = None \<and>
           (Metadata e = fmempty \<longrightarrow> fmlookup j ''metadata'' = None) \<and>
           (Metadata e \<noteq> fmempty \<and> fmpred (\<lambda>k v. validUTF8 k) (Metadata e) \<longrightarrow>
              (\<exists>r. fmlookup j ''metadata'' = Some (JObj r) \<and>
                   fmdom r = fmdom (Metadata e) \<and>
                   (\<forall>k v. fmlookup (Metadata e) k = Some v \<longrightarrow>
                      fmlookup r k =
                        (if isPIIField ul k then Some (JStr ''[REDACTED]'')
                         else json_encode v))))
    else MarshalJSON ul e = Inl UnsupportedValue)"
proof -
  note m = MarshalJSON_map_members [of ul e]
  have g1: "MarshalJSON ul e = json_Marshal (MapV (MarshalJSON_map ul e))"
    by (simp only: MarshalJSON_def)
  have g2: "fmlookup (MarshalJSON_map ul e) ''code'' = Some (Str (Code e))"
    using m by (elim conjE)
  have g3: "fmlookup (MarshalJSON_map ul e) ''kind'' = Some (Str (Kind e))"
    using m by (elim conjE)
  have g4: "fmlookup (MarshalJSON_map ul e) ''message'' = Some (Str (UserMsg e))"
    using m by (elim conjE)
  have g5: "fmdom (MarshalJSON_map ul e) |\<subseteq>|
     {|''code'', ''kind'', ''message'', ''trace_id'', ''request_id'', ''timestamp'', ''metadata''|}"
    using m by (elim conjE)
  have g6: "fmlookup (MarshalJSON_map ul e) ''metadata'' =
     (if Metadata e = fmempty then None else Some (MapV (redactMetadata ul (Metadata e))))"
    using m by (elim conjE)
  have g7: "fmdom (redactMetadata ul (Metadata e)) = fmdom (Metadata e)"
    by (rule redactMetadata_dom)
  have g8: "\<forall>k v. fmlookup (Metadata e) k = Some v \<longrightarrow>
      fmlookup (redactMetadata ul (Metadata e)) k =
        Some (if isPIIField ul k then Str ''[REDACTED]'' else v)"
    by (simp add: redactMetadata_lookup)
  have g9: "isPIIField ul key \<longleftrightarrow>
      ToLower ul key \<in> {''password'', ''token'', ''secret'', ''email'', ''ssn'', ''credit_card'',
                         ''api_key''} \<or>
      (\<exists>p q. ToLower ul key = p @ ''password'' @ q) \<or>
      (\<exists>p q. ToLower ul key = p @ ''token'' @ q) \<or>
      (\<exists>p q. ToLower ul key = p @ ''secret'' @ q)"
    by (rule isPIIField_iff)
  have g10: "isASCII key \<longrightarrow> ToLower ul key = map toLower_char key"
    by (simp add: ToLower_ascii)
  have w: "if fmpred (\<lambda>k v. isPIIField ul k \<or> json_encode v \<noteq> None) (Metadata e)
    then \<exists>j. MarshalJSON ul e = Inr (Document (JObj j)) \<and>
           fmdom j = fmdom (MarshalJSON_map ul e) \<and>
           fmlookup j ''code'' = Some (JStr (coerceString (Code e))) \<and>
           fmlookup j ''kind'' = Some (JStr (coerceString (Kind e))) \<and>
           fmlookup j ''message'' = Some (JStr (coerceString (UserMsg e))) \<and>
           fmlookup j ''internalMessage'' = None \<and>
           fmlookup j ''cause'' = None \<and>
           fmlookup j ''stackTrace'' = None \<and>
           (Metadata e = fmempty \<longrightarrow> fmlookup j ''metadata'' = None) \<and>
           (Metadata e \<noteq> fmempty \<and> fmpred (\<lambda>k v. validUTF8 k) (Metadata e) \<longrightarrow>
              (\<exists>r. fmlookup j ''metadata'' = Some (JObj r) \<and>
                   fmdom r = fmdom (Metadata e) \<and>
                   (\<forall>k v. fmlookup (Metadata e) k = Some v \<longrightarrow>
                      fmlookup r k =
                        (if isPIIField ul k then Some (JStr ''[REDACTED]'')
                         else json_encode v))))
    else MarshalJSON ul e = Inl UnsupportedValue"
  proof (cases "fmpred (\<lambda>k v. isPIIField ul k \<or> json_encode v \<noteq> None) (Metadata e)")
    case False
    then show ?thesis by (simp only: MarshalJSON_result if_False)
  next
    case True
    from MarshalJSON_wire [OF True]
    obtain j where j: "MarshalJSON ul e = Inr (Document (JObj j))"
        "fmdom j = fmdom (MarshalJSON_map ul e)"
        "fmlookup j ''code'' = Some (JStr (coerceString (Code e)))"
        "fmlookup j ''kind'' = Some (JStr (coerceString (Kind e)))"
        "fmlookup j ''message'' = Some (JStr (coerceString (UserMsg e)))"
        "fmlookup j ''metadata'' =
          (if Metadata e = fmempty then None
           else json_encode (MapV (redactMetadata ul (Metadata e))))"
      by blast
    have absent: "fmlookup j ''internalMessage'' = None" "fmlookup j ''cause'' = None"
        "fmlookup j ''stackTrace'' = None"
      using g5 j(2) by (auto intro!: fmdom_notD)
    have none: "Metadata e = fmempty \<longrightarrow> fmlookup j ''metadata'' = None"
      using j(6) by simp
    have some: "Metadata e \<noteq> fmempty \<and> fmpred (\<lambda>k v. validUTF8 k) (Metadata e) \<longrightarrow>
              (\<exists>r. fmlookup j ''metadata'' = Some (JObj r) \<and>
                   fmdom r = fmdom (Metadata e) \<and>
                   (\<forall>k v. fmlookup (Metadata e) k = Some v \<longrightarrow>
                      fmlookup r k =
                        (if isPIIField ul k then Some (JStr ''[REDACTED]'')
                         else json_encode v)))"
    proof
      assume a: "Metadata e \<noteq> fmempty \<and> fmpred (\<lambda>k v. validUTF8 k) (Metadata e)"
      then have "fmlookup j ''metadata'' = json_encode (MapV (redactMetadata ul (Metadata e)))"
        using j(6) by simp
      with MarshalJSON_wire_metadata [OF True conjunct2 [OF a]]
      show "\<exists>r. fmlookup j ''metadata'' = Some (JObj r) \<and>
                   fmdom r = fmdom (Metadata e) \<and>
                   (\<forall>k v. fmlookup (Metadata e) k = Some v \<longrightarrow>
                      fmlookup r k =
                        (if isPIIField ul k then Some (JStr ''[REDACTED]'')
                         else json_encode v))"
        by (simp only:)
    qed
    have "\<exists>j. MarshalJSON ul e = Inr (Document (JObj j)) \<and>
           fmdom j = fmdom (MarshalJSON_map ul e) \<and>
           fmlookup j ''code'' = Some (JStr (coerceString (Code e))) \<and>
           fmlookup j ''kind'' = Some (JStr (coerceString (Kind e))) \<and>
           fmlookup j ''message'' = Some (JStr (coerceString (UserMsg e))) \<and>
           fmlookup j ''internalMessage'' = None \<and>
           fmlookup j ''cause'' = None \<and>
           fmlookup j ''stackTrace'' = None \<and>
           (Metadata e = fmempty \<longrightarrow> fmlookup j ''metadata'' = None) \<and>
           (Metadata e \<noteq> fmempty \<and> fmpred (\<lambda>k v. validUTF8 k) (Metadata e) \<longrightarrow>
              (\<exists>r. fmlookup j ''metadata'' = Some (JObj r) \<and>
                   fmdom r = fmdom (Metadata e) \<and>
                   (\<forall>k v. fmlookup (Metadata e) k = Some v \<longrightarrow>
                      fmlookup r k =
                        (if isPIIField ul k then Some (JStr ''[REDACTED]'')
                         else json_encode v))))"
      using j(1) j(2) j(3) j(4) j(5) absent none some
      by (intro exI [of _ j] conjI)
    with True show ?thesis by (simp only: if_True)
  qed
  from g1 g2 g3 g4 g5 g6 g7 g8 g9 g10 w show ?thesis
    by (intro conjI)
qed

theorem MarshalJSON_safe_exposure_witness:
  "\<forall>ul. fmpred (\<lambda>k v. isPIIField ul k \<or> json_encode v \<noteq> None)
          (Metadata (set_Metadata (fmupd ''Password'' (Str ''secret123'')
             (fmupd ''user_id'' (Str ''u1'') fmempty)) ErrNotFound)) \<and>
        fmpred (\<lambda>k v. validUTF8 k)
          (Metadata (set_Metadata (fmupd ''Password'' (Str ''secret123'')
             (fmupd ''user_id'' (Str ''u1'') fmempty)) ErrNotFound)) \<and>
        Metadata (set_Metadata (fmupd ''Password'' (Str ''secret123'')
             (fmupd ''user_id'' (Str ''u1'') fmempty)) ErrNotFound) \<noteq> fmempty \<and>
        (\<exists>j r. MarshalJSON ul (set_Metadata (fmupd ''Password'' (Str ''secret123'')
                   (fmupd ''user_id'' (Str ''u1'') fmempty)) ErrNotFound) =
                  Inr (Document (JObj j)) \<and>
           fmlookup j ''message'' = Some (JStr ''resource not found'') \<and>
           fmlookup j ''metadata'' = Some (JObj r) \<and>
           fmlookup r ''Password'' = Some (JStr ''[REDACTED]'') \<and>
           fmlookup r ''user_id'' = Some (JStr ''u1''))"
proof
  fix ul :: "string \<Rightarrow> string"
  let ?md = "fmupd ''Password'' (Str ''secret123'') (fmupd ''user_id'' (Str ''u1'') fmempty)"
  let ?e = "set_Metadata ?md ErrNotFound"
  have md: "Metadata ?e = ?md" by (simp add: set_defs)
  have ne: "Metadata ?e \<noteq> fmempty"
  proof
    assume "Metadata ?e = fmempty"
    then have "fmlookup (Metadata ?e) ''user_id'' = fmlookup fmempty ''user_id''"
      by (rule arg_cong)
    then show False by (simp add: set_defs)
  qed
  have enc: "fmpred (\<lambda>k v. isPIIField ul k \<or> json_encode v \<noteq> None) (Metadata ?e)"
    unfolding md by (intro fmpred_upd fmpred_empty) simp_all
  have keys: "fmpred (\<lambda>k v. validUTF8 k) (Metadata ?e)"
    unfolding md by (intro fmpred_upd fmpred_empty) (simp_all add: validUTF8_lit)
  have l: "fmlookup (Metadata ?e) ''Password'' = Some (Str ''secret123'')"
      "fmlookup (Metadata ?e) ''user_id'' = Some (Str ''u1'')"
    by (simp_all add: set_defs)
  have u: "coerceString (UserMsg ?e) = ''resource not found''"
    by (simp add: set_defs ErrNotFound_def NewSentinel_def coerceString_ascii isASCII_def)
  have c: "coerceString ''u1'' = ''u1''"
    using validUTF8_lit(3) by (simp only: validUTF8_def)
  from MarshalJSON_safe_exposure [of ul ?e "[]"]
  have "if fmpred (\<lambda>k v. isPIIField ul k \<or> json_encode v \<noteq> None) (Metadata ?e)
    then \<exists>j. MarshalJSON ul ?e = Inr (Document (JObj j)) \<and>
           fmdom j = fmdom (MarshalJSON_map ul ?e) \<and>
           fmlookup j ''code'' = Some (JStr (coerceString (Code ?e))) \<and>
           fmlookup j ''kind'' = Some (JStr (coerceString (Kind ?e))) \<and>
           fmlookup j ''message'' = Some (JStr (coerceString (UserMsg ?e))) \<and>
           fmlookup j ''internalMessage'' = None \<and>
           fmlookup j ''cause'' = None \<and>
           fmlookup j ''stackTrace'' = None \<and>
           (Metadata ?e = fmempty \<longrightarrow> fmlookup j ''metadata'' = None) \<and>
           (Metadata ?e \<noteq> fmempty \<and> fmpred (\<lambda>k v. validUTF8 k) (Metadata ?e) \<longrightarrow>
              (\<exists>r. fmlookup j ''metadata'' = Some (JObj r) \<and>
                   fmdom r = fmdom (Metadata ?e) \<and>
                   (\<forall>k v. fmlookup (Metadata ?e) k = Some v \<longrightarrow>
                      fmlookup r k =
                        (if isPIIField ul k then Some (JStr ''[REDACTED]'')
                         else json_encode v))))
    else MarshalJSON ul ?e = Inl UnsupportedValue"
    by (elim conjE)
  with enc obtain j where j: "MarshalJSON ul ?e = Inr (Document (JObj j))"
      "fmlookup j ''message'' = Some (JStr (coerceString (UserMsg ?e)))"
      "Metadata ?e \<noteq> fmempty \<and> fmpred (\<lambda>k v. validUTF8 k) (Metadata ?e) \<longrightarrow>
         (\<exists>r. fmlookup j ''metadata'' = Some (JObj r) \<and> fmdom r = fmdom (Metadata ?e) \<and>
            (\<forall>k v. fmlookup (Metadata ?e) k = Some v \<longrightarrow>
               fmlookup r k =
                 (if isPIIField ul k then Some (JStr ''[REDACTED]'') else json_encode v)))"
    by (simp only: if_True) (elim exE conjE, rule that)
  from ne keys have "Metadata ?e \<noteq> fmempty \<and> fmpred (\<lambda>k v. validUTF8 k) (Metadata ?e)"
    by (rule conjI)
  with j(3) have "\<exists>r. fmlookup j ''metadata'' = Some (JObj r) \<and> fmdom r = fmdom (Metadata ?e) \<and>
            (\<forall>k v. fmlookup (Metadata ?e) k = Some v \<longrightarrow>
               fmlookup r k =
                 (if isPIIField ul k then Some (JStr ''[REDACTED]'') else json_encode v))"
    by (rule mp)
  then obtain r where r: "fmlookup j ''metadata'' = Some (JObj r)"
      "\<forall>k v. fmlookup (Metadata ?e) k = Some v \<longrightarrow>
         fmlookup r k = (if isPIIField ul k then Some (JStr ''[REDACTED]'') else json_encode v)"
    by blast
  have "fmlookup r ''Password'' = Some (JStr ''[REDACTED]'')"
    using r(2) l(1) isPIIField_Password [of ul] by simp
  moreover have "fmlookup r ''user_id'' = Some (JStr ''u1'')"
    using r(2) l(2) isPIIField_user_id [of ul] c by simp
  ultimately have "\<exists>j r. MarshalJSON ul ?e = Inr (Document (JObj j)) \<and>
        fmlookup j ''message'' = Some (JStr ''resource not found'') \<and>
        fmlookup j ''metadata'' = Some (JObj r) \<and>
        fmlookup r ''Password'' = Some (JStr ''[REDACTED]'') \<and>
        fmlookup r ''user_id'' = Some (JStr ''u1'')"
    using j(1) j(2) r(1) u by (intro exI [of _ j] exI [of _ r]) simp
  with enc keys ne show "fmpred (\<lambda>k v. isPIIField ul k \<or> json_encode v \<noteq> None) (Metadata ?e) \<and>
        fmpred (\<lambda>k v. validUTF8 k) (Metadata ?e) \<and> Metadata ?e \<noteq> fmempty \<and>
        (\<exists>j r. MarshalJSON ul ?e = Inr (Document (JObj j)) \<and>
           fmlookup j ''message'' = Some (JStr ''resource not found'') \<and>
           fmlookup j ''metadata'' = Some (JObj r) \<and>
           fmlookup r ''Password'' = Some (JStr ''[REDACTED]'') \<and>
           fmlookup r ''user_id'' = Some (JStr ''u1''))"
    by (intro conjI)
qed

text \<open>
  C1, as stated, fails in two ways. An error whose metadata holds a value without
  encoding (a channel, say) under a key that is not sensitive is not serialized at
  all; and a user message that is the single byte FF is written as U+FFFD, not as
  it is. Both hold whatever the Unicode case mapping is.
\<close>

theorem MarshalJSON_unencodable_counterexample:
  "\<forall>ul. MarshalJSON ul (set_Metadata (fmupd ''ch'' Unencodable fmempty) ErrNotFound) =
           Inl UnsupportedValue \<and>
        MarshalJSON ul (set_UserMsg [char_of (255 :: nat)] ErrNotFound) =
           Inr (Document (JObj
             (fmupd ''message'' (JStr RuneError)
               (fmupd ''kind'' (JStr ''not_found'')
                 (fmupd ''code'' (JStr ''NOT_FOUND'') fmempty)))))"
proof
  fix ul :: "string \<Rightarrow> string"
  have "\<not> fmpred (\<lambda>k v. isPIIField ul k \<or> json_encode v \<noteq> None)
      (fmupd ''ch'' Unencodable fmempty)"
    by (auto simp: fmpred_iff isPIIField_ch)
  then have 1: "MarshalJSON ul (set_Metadata (fmupd ''ch'' Unencodable fmempty) ErrNotFound) =
           Inl UnsupportedValue"
    by (simp add: MarshalJSON_result set_defs del: not_None_eq)
  have a: "coerceString ''not_found'' = ''not_found''" "coerceString ''NOT_FOUND'' = ''NOT_FOUND''"
    by (simp_all add: coerceString_ascii isASCII_def)
  have 2: "MarshalJSON ul (set_UserMsg [char_of (255 :: nat)] ErrNotFound) =
           Inr (Document (JObj
             (fmupd ''message'' (JStr RuneError)
               (fmupd ''kind'' (JStr ''not_found'')
                 (fmupd ''code'' (JStr ''NOT_FOUND'') fmempty)))))"
    by (simp add: MarshalJSON_result MarshalJSON_map_def Let_def set_defs ErrNotFound_def
        NewSentinel_def IsZero_zeroTime len_map_pos coerceString_FF a fmmap_fmupd
        KindNotFound_def CodeNotFound_def)
  from 1 2 show "MarshalJSON ul (set_Metadata (fmupd ''ch'' Unencodable fmempty) ErrNotFound) =
           Inl UnsupportedValue \<and>
        MarshalJSON ul (set_UserMsg [char_of (255 :: nat)] ErrNotFound) =
           Inr (Document (JObj
             (fmupd ''message'' (JStr RuneError)
               (fmupd ''kind'' (JStr ''not_found'')
                 (fmupd ''code'' (JStr ''NOT_FOUND'') fmempty)))))"
    by (rule conjI)
qed

text \<open>
  C2, as the code has it. \<^verbatim>\<open>PublicError\<close> looks at the dynamic type of \<open>err\<close> itself
  and never walks the chain. It returns the empty string for nil; the user message of
  an \<^verbatim>\<open>*AppError\<close> when that message is non-empty; the user message of a field, limit,
  timeout or RBAC error; and the fixed text \<open>an error occurred\<close> for everything else:
  an \<^verbatim>\<open>*AppError\<close> with an empty user message, a foreign error whatever its text, a
  joined error, and a wrapper made by \<^verbatim>\<open>Wrap\<close> whatever it wraps.
\<close>

theorem PublicError_by_dynamic_type:
  "PublicError None = [] \<and>
   PublicError (Some (EApp a)) = (if UserMsg a = [] then ''an error occurred'' else UserMsg a) \<and>
   PublicError (Some (EField a field reason)) = UserMsg a \<and>
   PublicError (Some (ELimit a remaining reset)) = UserMsg a \<and>
   PublicError (Some (ETimeout a deadline)) = UserMsg a \<and>
   PublicError (Some (ERBAC a role action resource)) = UserMsg a \<and>
   PublicError (Some (EForeign text)) = ''an error occurred'' \<and>
   PublicError (Some (EForeignWrap text cause)) = ''an error occurred'' \<and>
   PublicError (Some (EJoin errs)) = ''an error occurred'' \<and>
   PublicError (Some (EWrap msg cause)) = ''an error occurred'' \<and>
   PublicError (Wrap (Some e) msg) = ''an error occurred''"
  by (simp add: Wrap_def)

text \<open>
  C2, as stated, fails: a wrapped sentinel has a core error with a user message in its
  chain, and \<^verbatim>\<open>PublicError\<close> answers with the fallback text.
\<close>

theorem PublicError_wrapped_counterexample:
  "Unwrap (Wrap (Some (EApp ErrNotFound)) ''lookup'') = Some (EApp ErrNotFound) \<and>
   UserMsg ErrNotFound = ''resource not found'' \<and>
   PublicError (Wrap (Some (EApp ErrNotFound)) ''lookup'') = ''an error occurred''"
  by (simp add: Wrap_def Unwrap_def ErrNotFound_def NewSentinel_def)

text \<open>
  C3. Whatever deadline and options the caller passes to \<^verbatim>\<open>NewTimeoutError\<close>, a
  \<^verbatim>\<open>WithRetryable(false)\<close> or \<^verbatim>\<open>WithTimeout(false)\<close> among them, the error built has
  \<^verbatim>\<open>IsTimeout() == true\<close> and \<^verbatim>\<open>IsRetryable() == true\<close>: the two forced options run
  last and set both flags.
\<close>

theorem NewTimeoutError_forces_flags:
  "TimeoutError_IsTimeout (NewTimeoutError now stack deadline opts) \<and>
   TimeoutError_IsRetryable (NewTimeoutError now stack deadline opts) \<and>
   Timeout (te_AppError (NewTimeoutError now stack deadline opts)) \<and>
   Retryable (te_AppError (NewTimeoutError now stack deadline opts)) \<and>
   TimeoutError_IsRetryable
     (NewTimeoutError now stack deadline [WithRetryable False, WithTimeout False]) \<and>
   TimeoutError_IsTimeout
     (NewTimeoutError now stack deadline [WithRetryable False, WithTimeout False])"
  by (simp add: TimeoutError_IsTimeout_def TimeoutError_IsRetryable_def IsTimeout_def
      IsRetryable_def NewTimeoutError_def New_def Let_def With_defs set_defs)




text \<open>
  C5, as the code has it. \<^verbatim>\<open>New\<close> with options that do not assign the user message
  (none of the package's options does) returns an error whose user message is the
  \<open>userMsg\<close> argument, or the internal message when that argument is empty. So the user
  message is non-empty exactly when one of the two arguments is.
\<close>

theorem New_UserMsg_fallback:
  assumes "list_all keeps_UserMsg opts"
  shows "UserMsg (New now stack code internalMsg userMsg opts) =
           (if userMsg = [] then internalMsg else userMsg) \<and>
         UserMsg (New now stack code internalMsg [] opts) = internalMsg \<and>
         (UserMsg (New now stack code internalMsg userMsg opts) \<noteq> [] \<longleftrightarrow>
           internalMsg \<noteq> [] \<or> userMsg \<noteq> [])"
  using assms
  by (simp add: New_def Let_def fold_options_keeps_UserMsg set_defs)

theorem New_UserMsg_fallback_witness:
  "list_all keeps_UserMsg [WithKind KindNetwork, WithMetadata fmempty] \<and>
   UserMsg (New zeroTime [] CodeNotFound ''db row missing'' []
              [WithKind KindNetwork, WithMetadata fmempty]) = ''db row missing''"
  using New_UserMsg_fallback
    [of "[WithKind KindNetwork, WithMetadata fmempty]" zeroTime "[]" CodeNotFound
        "''db row missing''" "[]"]
  by (simp add: package_options_keep_UserMsg)

text \<open>
  C5, as stated, fails: with both messages empty the user message stays empty.
\<close>

theorem New_UserMsg_empty_counterexample:
  "UserMsg (New zeroTime [] CodeInternal [] [] []) = []"
  by (simp add: New_def Let_def set_defs)

text \<open>
  C6. \<^verbatim>\<open>kindToHTTPStatus\<close> is total: it sends validation to 400, unauthorized to 401,
  auth and forbidden to 403, not_found to 404, timeout to 408, conflict to 409,
  rate_limit to 429, network, internal and other to 500, every kind outside this list
  to 500, and so every kind into the set {400, 401, 403, 404, 408, 409, 429, 500}.
\<close>

theorem kindToHTTPStatus_table:
  "kindToHTTPStatus KindValidation = 400 \<and>
   kindToHTTPStatus KindUnauthorized = 401 \<and>
   kindToHTTPStatus KindAuth = 403 \<and>
   kindToHTTPStatus KindForbidden = 403 \<and>
   kindToHTTPStatus KindNotFound = 404 \<and>
   kindToHTTPStatus KindTimeout = 408 \<and>
   kindToHTTPStatus KindConflict = 409 \<and>
   kindToHTTPStatus KindRateLimit = 429 \<and>
   kindToHTTPStatus KindNetwork = 500 \<and>
   kindToHTTPStatus KindInternal = 500 \<and>
   kindToHTTPStatus KindOther = 500 \<and>
   (k \<notin> {KindValidation, KindUnauthorized, KindAuth, KindForbidden, KindNotFound,
          KindTimeout, KindConflict, KindRateLimit, KindNetwork, KindInternal, KindOther}
      \<longrightarrow> kindToHTTPStatus k = 500) \<and>
   kindToHTTPStatus k \<in> {400, 401, 403, 404, 408, 409, 429, 500}"
  by (simp add: kindToHTTPStatus_def Kind_defs)

theorem kindToHTTPStatus_table_witness:
  "''teapot'' \<notin> {KindValidation, KindUnauthorized, KindAuth, KindForbidden, KindNotFound,
          KindTimeout, KindConflict, KindRateLimit, KindNetwork, KindInternal, KindOther} \<and>
   kindToHTTPStatus ''teapot'' = 500 \<and>
   kindToHTTPStatus KindUnauthorized = 401"
  using kindToHTTPStatus_table [of "''teapot''"] by (simp add: Kind_defs)

text \<open>
  C7. On every finite acyclic chain \<^verbatim>\<open>RootCause\<close> returns, and what it returns is the
  last error reached by repeated unwrapping: an error that has no \<^verbatim>\<open>Unwrap() error\<close>
  method or whose \<^verbatim>\<open>Unwrap\<close> returns nil. An error that is itself such an end comes
  back unchanged, and for a base error at the end of its chain
  \<^verbatim>\<open>RootCause(Wrap(Wrap(base, mid), outer))\<close> is \<open>base\<close>. The first conjunct is the
  loop over any successor function, cyclic ones included; the others are the loop over
  the errors of the model, which are all finite chains.
\<close>

theorem RootCause_returns_chain_end:
  "(chain_end unwrap x r' \<longrightarrow> RootCause_over unwrap (Some x) = Some (Some r')) \<and>
   (\<exists>r. RootCause (Some e) = Some (Some r) \<and> chain_end Unwrap_method e r \<and>
        (Unwrap_method r = None \<or> Unwrap_method r = Some None)) \<and>
   RootCause None = Some None \<and>
   (Unwrap_method e = None \<or> Unwrap_method e = Some None
      \<longrightarrow> RootCause (Some e) = Some (Some e)) \<and>
   RootCause (Wrap (Wrap (Some base) mid) outer) = RootCause (Some base) \<and>
   (Unwrap_method base = None \<or> Unwrap_method base = Some None
      \<longrightarrow> RootCause (Wrap (Wrap (Some base) mid) outer) = Some (Some base))"
proof -
  have gen: "chain_end unwrap x r' \<longrightarrow> RootCause_over unwrap (Some x) = Some (Some r')"
    by (simp add: RootCause_over_def RootCause_loop_chain_end)
  obtain r where r: "chain_end Unwrap_method e r"
    using chain_end_exists by blast
  then have ex: "\<exists>r. RootCause (Some e) = Some (Some r) \<and> chain_end Unwrap_method e r \<and>
        (Unwrap_method r = None \<or> Unwrap_method r = Some None)"
    using chain_end_last [OF r]
    by (auto simp: RootCause_def RootCause_over_def RootCause_loop_chain_end)
  have nil: "RootCause None = Some None"
    by (simp add: RootCause_def RootCause_over_def)
  have same: "Unwrap_method y = None \<or> Unwrap_method y = Some None
      \<longrightarrow> RootCause (Some y) = Some (Some y)" for y
    by (auto simp: RootCause_def RootCause_over_def RootCause_loop.simps)
  have wrap2: "RootCause (Wrap (Wrap (Some base) mid) outer) = RootCause (Some base)"
    by (simp add: RootCause_def RootCause_over_def Wrap_def
        RootCause_loop.simps [of Unwrap_method "EWrap outer (Some (EWrap mid (Some base)))"]
        RootCause_loop.simps [of Unwrap_method "EWrap mid (Some base)"])
  show ?thesis
    using gen ex nil same [of e] same [of base] wrap2 by simp
qed

theorem RootCause_returns_chain_end_witness:
  "Unwrap_method (EApp ErrNotFound) = Some None \<and>
   chain_end Unwrap_method (EApp ErrNotFound) (EApp ErrNotFound) \<and>
   RootCause_over Unwrap_method (Some (EApp ErrNotFound)) = Some (Some (EApp ErrNotFound)) \<and>
   RootCause (Wrap (Wrap (Some (EApp ErrNotFound)) ''mid'') ''outer'')
     = Some (Some (EApp ErrNotFound))"
proof -
  have u: "Unwrap_method (EApp ErrNotFound) = Some None"
    by (simp add: ErrNotFound_def NewSentinel_def)
  have c: "chain_end Unwrap_method (EApp ErrNotFound) (EApp ErrNotFound)"
    using u by (rule chain_end.nil_next)
  show ?thesis
    using u c RootCause_returns_chain_end
      [of Unwrap_method "EApp ErrNotFound" "EApp ErrNotFound" "EApp ErrNotFound"
          "EApp ErrNotFound" "''mid''" "''outer''"]
    by simp
qed

text \<open>
  C8. \<^verbatim>\<open>MultiError\<close> drops the nil inputs. With none left it returns nil; with exactly
  one left it returns that error itself; with two or more it returns the joined error
  of the ones left, and \<^verbatim>\<open>Is\<close> of the result against each of them holds.
\<close>

theorem MultiError_cases:
  "MultiError [] = None \<and>
   MultiError [None, None] = None \<and>
   (non_nil errs = [] \<longrightarrow> MultiError errs = None) \<and>
   (non_nil errs = [single] \<longrightarrow> MultiError errs = Some single) \<and>
   (2 \<le> length (non_nil errs) \<longrightarrow>
      MultiError errs = Some (EJoin (non_nil errs)) \<and>
      (\<forall>x. Some x \<in> set errs \<longrightarrow> Is (MultiError errs) (Some x)))"
proof -
  have zero: "MultiError [] = None" "MultiError [None, None] = None"
    by (simp_all add: MultiError_def)
  have none: "non_nil errs = [] \<longrightarrow> MultiError errs = None"
    by (simp add: MultiError_def filter_loop)
  have one: "non_nil errs = [single] \<longrightarrow> MultiError errs = Some single"
    by (simp add: MultiError_def filter_loop)
  have "2 \<le> length (non_nil errs) \<Longrightarrow> Some x \<in> set errs \<Longrightarrow>
      Is (MultiError errs) (Some x)" for x
    by (simp add: MultiError_many Is_def Is_walk_Join non_nil_member)
  then show ?thesis
    using zero none one MultiError_many by blast
qed

theorem MultiError_cases_witness:
  "non_nil [None, Some (EApp ErrNotFound), None] = [EApp ErrNotFound] \<and>
   MultiError [None, Some (EApp ErrNotFound), None] = Some (EApp ErrNotFound) \<and>
   2 \<le> length (non_nil [Some (EApp ErrNotFound), None, Some (EApp ErrInvalidInput)]) \<and>
   Is (MultiError [Some (EApp ErrNotFound), None, Some (EApp ErrInvalidInput)])
      (Some (EApp ErrInvalidInput))"
  using MultiError_cases [of "[None, Some (EApp ErrNotFound), None]" "EApp ErrNotFound"]
    MultiError_cases [of "[Some (EApp ErrNotFound), None, Some (EApp ErrInvalidInput)]"]
  by auto

text \<open>
  C9. \<^verbatim>\<open>Wrap(nil, msg)\<close> is nil. For a non-nil \<open>err\<close> the wrapper's text is
  \<open>msg\<close>, a colon and a space, and the text of \<open>err\<close>; its \<^verbatim>\<open>Unwrap\<close> returns
  \<open>err\<close>; and \<^verbatim>\<open>Is(Wrap(err, msg), err)\<close> holds, for a sentinel as for any other error.
\<close>

theorem Wrap_keeps_the_error:
  "Wrap None msg = None \<and>
   (\<exists>w. Wrap (Some e) msg = Some w \<and>
        Error_text w = msg @ '': '' @ Error_text e \<and>
        Unwrap_method w = Some (Some e)) \<and>
   Unwrap (Wrap (Some e) msg) = Some e \<and>
   Is (Wrap (Some e) msg) (Some e) \<and>
   Is (Wrap (Some (EApp ErrNotFound)) ''ctx'') (Some (EApp ErrNotFound))"
  by (simp add: Wrap_def Unwrap_def Is_def Is_walk_Wrap)

text \<open>
  C10. Constructing with code UNAUTHORIZED and options that leave the kind alone yields
  kind auth and HTTP status 403, while the pre-built sentinel \<^verbatim>\<open>ErrUnauthorized\<close> has
  kind unauthorized and status 401: \<^verbatim>\<open>codeToKind\<close> sends PERMISSION_DENIED and
  UNAUTHORIZED to auth and sends no code at all to unauthorized.
\<close>

theorem New_Unauthorized_is_auth_403:
  assumes "list_all keeps_Kind opts"
  shows "Kind (New now stack CodeUnauthorized internalMsg userMsg opts) = KindAuth \<and>
         HTTPStatus (New now stack CodeUnauthorized internalMsg userMsg opts) = 403 \<and>
         Kind ErrUnauthorized = KindUnauthorized \<and>
         HTTPStatus ErrUnauthorized = 401 \<and>
         codeToKind CodePermissionDenied = KindAuth \<and>
         codeToKind CodeUnauthorized = KindAuth \<and>
         codeToKind c \<noteq> KindUnauthorized"
proof -
  have k: "Kind (New now stack CodeUnauthorized internalMsg userMsg opts) = KindAuth"
    using assms
    by (simp add: New_def Let_def fold_options_keeps_Kind set_defs codeToKind_def
        Code_defs Kind_defs)
  have s: "Kind ErrUnauthorized = KindUnauthorized"
    by (simp add: ErrUnauthorized_def NewSentinel_def)
  have t: "codeToKind c \<noteq> KindUnauthorized"
    by (simp add: codeToKind_def Kind_defs)
  have u: "codeToKind CodePermissionDenied = KindAuth" "codeToKind CodeUnauthorized = KindAuth"
    by (simp_all add: codeToKind_def Code_defs)
  show ?thesis
    using k s t u by (simp add: HTTPStatus_def kindToHTTPStatus_def Kind_defs)
qed

theorem New_Unauthorized_is_auth_403_witness:
  "list_all keeps_Kind [WithTraceID ''t-1'', WithRetryable True] \<and>
   Kind (New zeroTime [] CodeUnauthorized ''no session'' []
           [WithTraceID ''t-1'', WithRetryable True]) = KindAuth \<and>
   HTTPStatus (New zeroTime [] CodeUnauthorized ''no session'' []
           [WithTraceID ''t-1'', WithRetryable True]) = 403 \<and>
   HTTPStatus ErrUnauthorized = 401"
  using New_Unauthorized_is_auth_403
    [of "[WithTraceID ''t-1'', WithRetryable True]" zeroTime "[]" "''no session''" "[]"]
  by (simp add: package_options_keep_Kind)

end
